theory Spec2Isabelle
  imports Complex_Main
begin

unbundle bit_operations_syntax

section \<open>Device registry (js/device-manager.js)\<close>

text \<open>
  The registry of \<^verbatim>\<open>class DeviceManager\<close> holds three collections: the known devices, the
  groups and the connection history. JavaScript objects are mutated in place through the
  reference that \<^verbatim>\<open>Array.prototype.find\<close> returns, which is the first element of the array
  whose id matches; the model therefore rewrites the first matching element of the list.
  \<^verbatim>\<open>Date.now()\<close> is an input of the operations that read it.
  Console output is not modelled. The fields of a device, a group and a history entry keep
  their names behind the prefixes \<open>d_\<close>, \<open>g_\<close> and \<open>h_\<close>, since several of them (\<^verbatim>\<open>id\<close>, \<^verbatim>\<open>name\<close>,
  \<^verbatim>\<open>updatedAt\<close>) occur in more than one object.
\<close>

record device_record =
  d_id :: string
  d_name :: string
  d_originalName :: string
  d_mac :: string
  d_protocol :: string
  d_autoConnect :: bool
  d_group :: "string option"
  d_favorite :: bool
  d_rssi :: "int option"
  d_lastConnected :: "int option"
  d_connectionCount :: nat
  d_notes :: string
  d_createdAt :: int
  d_updatedAt :: int

record group_record =
  g_id :: string
  g_name :: string
  g_description :: string
  g_devices :: "string list"
  g_parentGroup :: "string option"
  g_subGroups :: "string list"
  g_level :: nat
  g_createdAt :: int
  g_updatedAt :: int

record history_entry =
  h_deviceId :: string
  h_deviceName :: string
  h_action :: string
  h_timestamp :: int

text \<open>
  \<^verbatim>\<open>localStorage\<close> keeps one JSON snapshot per key. \<^verbatim>\<open>setItem\<close> may throw (quota); the three
  save functions catch that and only log, so a failed write leaves the stored value and the
  registry as they were. The flag \<open>quotaExceeded\<close> is that behaviour of the platform.
\<close>

datatype stored =
  StoredDevices "device_record list"
| StoredGroups "group_record list"
| StoredHistory "history_entry list"

record device_manager =
  devices :: "device_record list"
  groups :: "group_record list"
  connectionHistory :: "history_entry list"
  localStorage :: "string \<rightharpoonup> stored"
  quotaExceeded :: bool

definition STORAGE_KEY :: string where "STORAGE_KEY = ''led-devices''"
definition HISTORY_KEY :: string where "HISTORY_KEY = ''device-connection-history''"
definition GROUPS_KEY :: string where "GROUPS_KEY = ''device-groups''"

definition setItem :: "string \<Rightarrow> stored \<Rightarrow> device_manager \<Rightarrow> device_manager" where
  "setItem key v m = (if quotaExceeded m then m else m\<lparr>localStorage := (localStorage m)(key \<mapsto> v)\<rparr>)"

definition saveDevices :: "device_manager \<Rightarrow> device_manager" where
  "saveDevices m = setItem STORAGE_KEY (StoredDevices (devices m)) m"

definition saveGroups :: "device_manager \<Rightarrow> device_manager" where
  "saveGroups m = setItem GROUPS_KEY (StoredGroups (groups m)) m"

definition saveHistory :: "device_manager \<Rightarrow> device_manager" where
  "saveHistory m = setItem HISTORY_KEY (StoredHistory (connectionHistory m)) m"

subsection \<open>Connection history\<close>

text \<open>
  \<^verbatim>\<open>addToHistory(device, action)\<close>: the new entry is put in front (\<^verbatim>\<open>unshift\<close>), and a list
  longer than 100 is cut to its first 100 elements (\<^verbatim>\<open>slice(0, 100)\<close>).
\<close>

definition new_entry :: "int \<Rightarrow> device_record \<Rightarrow> string \<Rightarrow> history_entry" where
  "new_entry now device action =
     \<lparr>h_deviceId = d_id device, h_deviceName = d_name device, h_action = action, h_timestamp = now\<rparr>"

definition addToHistory :: "int \<Rightarrow> device_record \<Rightarrow> string \<Rightarrow> device_manager \<Rightarrow> device_manager" where
  "addToHistory now device action m =
     (let entry = new_entry now device action;
          unshifted = entry # connectionHistory m;
          capped = (if length unshifted > 100 then take 100 unshifted else unshifted)
      in saveHistory (m\<lparr>connectionHistory := capped\<rparr>))"

text \<open>A sequence of calls, each with the clock reading, the device and the action it was given.\<close>

type_synonym history_call = "int \<times> device_record \<times> string"

definition entry_of :: "history_call \<Rightarrow> history_entry" where
  "entry_of c = (case c of (now, device, action) \<Rightarrow> new_entry now device action)"

fun addToHistory_seq :: "history_call list \<Rightarrow> device_manager \<Rightarrow> device_manager" where
  "addToHistory_seq [] m = m"
| "addToHistory_seq (c # cs) m =
     addToHistory_seq cs (case c of (now, device, action) \<Rightarrow> addToHistory now device action m)"

subsection \<open>Lookups and in-place updates\<close>

text \<open>
  Errors thrown: \<^verbatim>\<open>new Error('...')\<close> with the German messages of the registry for a device that
  is not found and a group that is not found, and the engine's \<^verbatim>\<open>TypeError\<close> for reading a
  property of \<^verbatim>\<open>null\<close> or \<^verbatim>\<open>undefined\<close>.
\<close>

datatype js_error = DeviceNotFound | GroupNotFound | TypeError

type_synonym clock = "nat \<Rightarrow> int"
  \<comment> \<open>the successive readings of \<^verbatim>\<open>Date.now()\<close> within one call\<close>

definition truthy :: "string option \<Rightarrow> bool" where
  \<comment> \<open>JavaScript truthiness of a value that is \<^verbatim>\<open>null\<close> or a string: the empty string is falsy\<close>
  "truthy v = (case v of None \<Rightarrow> False | Some s \<Rightarrow> s \<noteq> [])"

fun findIndex :: "('a \<Rightarrow> bool) \<Rightarrow> 'a list \<Rightarrow> nat option" where
  \<comment> \<open>\<^verbatim>\<open>Array.prototype.findIndex\<close>; \<open>None\<close> is its result -1\<close>
  "findIndex P [] = None"
| "findIndex P (x # xs) =
     (if P x then Some 0 else (case findIndex P xs of None \<Rightarrow> None | Some i \<Rightarrow> Some (Suc i)))"

fun update_first :: "('a \<Rightarrow> bool) \<Rightarrow> ('a \<Rightarrow> 'a) \<Rightarrow> 'a list \<Rightarrow> 'a list" where
  \<comment> \<open>mutation of the object that \<^verbatim>\<open>find\<close> returns: the first match, in place\<close>
  "update_first P f [] = []"
| "update_first P f (x # xs) = (if P x then f x # xs else x # update_first P f xs)"

definition getDeviceById :: "string \<Rightarrow> device_manager \<Rightarrow> device_record option" where
  "getDeviceById deviceId m = find (\<lambda>d. d_id d = deviceId) (devices m)"

definition getGroupById :: "string \<Rightarrow> device_manager \<Rightarrow> group_record option" where
  \<comment> \<open>the expression \<^verbatim>\<open>this.groups.find(g => g.id === groupId)\<close>\<close>
  "getGroupById groupId m = find (\<lambda>g. g_id g = groupId) (groups m)"

subsection \<open>Groups\<close>

text \<open>
  \<^verbatim>\<open>addDeviceToGroup(deviceId, groupId)\<close>. The old group is looked for only when
  \<^verbatim>\<open>device.group\<close> is truthy. When the old group and the new one are the same object, the
  filter has removed the device before \<^verbatim>\<open>includes\<close> is asked, so it is pushed again.
\<close>

definition addDeviceToGroup ::
  "clock \<Rightarrow> string \<Rightarrow> string \<Rightarrow> device_manager \<Rightarrow> js_error + device_manager" where
  "addDeviceToGroup now deviceId groupId m =
     (case getDeviceById deviceId m of
        None \<Rightarrow> Inl DeviceNotFound
      | Some device \<Rightarrow>
          (case getGroupById groupId m of
             None \<Rightarrow> Inl GroupNotFound
           | Some grp \<Rightarrow>
               let gs1 = (if truthy (d_group device)
                          then update_first (\<lambda>g. Some (g_id g) = d_group device)
                                 (\<lambda>oldGroup. oldGroup\<lparr>g_devices := filter (\<lambda>i. i \<noteq> deviceId) (g_devices oldGroup)\<rparr>)
                                 (groups m)
                          else groups m);
                   ds1 = update_first (\<lambda>d. d_id d = deviceId) (\<lambda>d. d\<lparr>d_group := Some groupId\<rparr>) (devices m);
                   gs2 = update_first (\<lambda>g. g_id g = groupId)
                           (\<lambda>g. if deviceId \<in> set (g_devices g) then g
                                else g\<lparr>g_devices := g_devices g @ [deviceId]\<rparr>) gs1;
                   gs3 = update_first (\<lambda>g. g_id g = groupId) (\<lambda>g. g\<lparr>g_updatedAt := now 0\<rparr>) gs2;
                   ds2 = update_first (\<lambda>d. d_id d = deviceId) (\<lambda>d. d\<lparr>d_updatedAt := now 1\<rparr>) ds1
               in Inr (saveGroups (saveDevices (m\<lparr>devices := ds2, groups := gs3\<rparr>)))))"

text \<open>
  Two calls one after the other, the device moved to \<open>g1\<close> and then to \<open>g2\<close>; an error thrown
  by the first call ends the sequence.
\<close>

definition addDeviceToGroup_twice ::
  "clock \<Rightarrow> clock \<Rightarrow> string \<Rightarrow> string \<Rightarrow> string \<Rightarrow> device_manager \<Rightarrow>
   js_error + device_manager" where
  "addDeviceToGroup_twice now1 now2 d g1 g2 m =
     (case addDeviceToGroup now1 d g1 m of
        Inl e \<Rightarrow> Inl e
      | Inr m1 \<Rightarrow> addDeviceToGroup now2 d g2 m1)"

text \<open>\<^verbatim>\<open>removeDeviceFromGroup(deviceId)\<close> returns \<^verbatim>\<open>false\<close> and changes nothing without a group.\<close>

definition removeDeviceFromGroup ::
  "clock \<Rightarrow> string \<Rightarrow> device_manager \<Rightarrow> bool \<times> device_manager" where
  "removeDeviceFromGroup now deviceId m =
     (case getDeviceById deviceId m of
        None \<Rightarrow> (False, m)
      | Some device \<Rightarrow>
          if \<not> truthy (d_group device) then (False, m)
          else
            let gs1 = update_first (\<lambda>g. Some (g_id g) = d_group device)
                        (\<lambda>grp. grp\<lparr>g_devices := filter (\<lambda>i. i \<noteq> deviceId) (g_devices grp),
                                        g_updatedAt := now 0\<rparr>)
                        (groups m);
                ds1 = update_first (\<lambda>d. d_id d = deviceId)
                        (\<lambda>d. d\<lparr>d_group := None, d_updatedAt := now 1\<rparr>) (devices m)
            in (True, saveGroups (saveDevices (m\<lparr>devices := ds1, groups := gs1\<rparr>))))"

text \<open>
  \<^verbatim>\<open>deleteGroup(groupId)\<close>: the group at the index found is spliced out, and every device
  whose \<^verbatim>\<open>group\<close> is the id loses it. No other group is read or written.
\<close>

definition deleteGroup :: "string \<Rightarrow> device_manager \<Rightarrow> js_error + device_manager" where
  "deleteGroup groupId m =
     (case findIndex (\<lambda>g. g_id g = groupId) (groups m) of
        None \<Rightarrow> Inl GroupNotFound
      | Some index \<Rightarrow>
          let ds = map (\<lambda>device. if d_group device = Some groupId
                                 then device\<lparr>d_group := None\<rparr> else device) (devices m);
              gs = take index (groups m) @ drop (Suc index) (groups m)
          in Inr (saveGroups (saveDevices (m\<lparr>devices := ds, groups := gs\<rparr>))))"

subsection \<open>Single membership\<close>

text \<open>
  Where the registry lists a device: the ids of the groups whose member list holds it. The
  membership of a device is single when group ids are distinct and truthy and the device is
  listed in no group but the one its \<^verbatim>\<open>group\<close> field names.
\<close>

definition listed_in :: "string \<Rightarrow> device_manager \<Rightarrow> string set" where
  "listed_in d m = set (map g_id (filter (\<lambda>G. d \<in> set (g_devices G)) (groups m)))"

definition single_membership :: "string \<Rightarrow> device_manager \<Rightarrow> bool" where
  "single_membership d m =
     (distinct (map g_id (groups m)) \<and> [] \<notin> set (map g_id (groups m)) \<and>
      listed_in d m \<subseteq> (case getDeviceById d m of
                             None \<Rightarrow> {}
                           | Some dv \<Rightarrow> (case d_group dv of None \<Rightarrow> {} | Some k \<Rightarrow> {k})))"

section \<open>BLE controller (js/ble-controller-pro.js)\<close>

subsection \<open>JavaScript numbers\<close>

text \<open>
  The numbers that reach the command templates of the controller are results of \<^verbatim>\<open>parseInt\<close>,
  \<^verbatim>\<open>Math.round\<close>, \<^verbatim>\<open>Math.min\<close> and \<^verbatim>\<open>Math.max\<close>: an integer, \<^verbatim>\<open>NaN\<close> or an infinity. Numbers
  with a fraction are not represented. Negative zero is identified with zero (it is falsy,
  compares equal to zero and converts to the byte 0). Integer sums are exact, as they are
  in JavaScript below \<open>2 ^ 53\<close>.
\<close>

datatype jsnum = NaN | Fin int | PosInf | NegInf

fun js_less_eq :: "jsnum \<Rightarrow> jsnum \<Rightarrow> bool" where
  "js_less_eq NaN _ = False"
| "js_less_eq _ NaN = False"
| "js_less_eq NegInf _ = True"
| "js_less_eq _ PosInf = True"
| "js_less_eq (Fin a) (Fin b) = (a \<le> b)"
| "js_less_eq _ _ = False"

definition Math_min :: "jsnum \<Rightarrow> jsnum \<Rightarrow> jsnum" where
  "Math_min a b = (if a = NaN \<or> b = NaN then NaN else if js_less_eq a b then a else b)"

definition Math_max :: "jsnum \<Rightarrow> jsnum \<Rightarrow> jsnum" where
  "Math_max a b = (if a = NaN \<or> b = NaN then NaN else if js_less_eq a b then b else a)"

definition js_or :: "jsnum \<Rightarrow> jsnum \<Rightarrow> jsnum" where
  \<comment> \<open>\<^verbatim>\<open>a || b\<close> on numbers: \<^verbatim>\<open>NaN\<close> and zero are falsy\<close>
  "js_or a b = (if a = NaN \<or> a = Fin 0 then b else a)"

fun js_add :: "jsnum \<Rightarrow> jsnum \<Rightarrow> jsnum" where
  "js_add NaN _ = NaN"
| "js_add _ NaN = NaN"
| "js_add (Fin a) (Fin b) = Fin (a + b)"
| "js_add PosInf NegInf = NaN"
| "js_add NegInf PosInf = NaN"
| "js_add PosInf _ = PosInf"
| "js_add _ PosInf = PosInf"
| "js_add NegInf _ = NegInf"
| "js_add _ NegInf = NegInf"

definition ToInt32 :: "jsnum \<Rightarrow> int" where
  "ToInt32 x =
     (case x of
        Fin n \<Rightarrow> (let m = n mod 2 ^ 32 in if m \<ge> 2 ^ 31 then m - 2 ^ 32 else m)
      | _ \<Rightarrow> 0)"

definition js_bitand :: "jsnum \<Rightarrow> jsnum \<Rightarrow> jsnum" where
  \<comment> \<open>the operator \<^verbatim>\<open>&\<close>\<close>
  "js_bitand a b = Fin (ToInt32 a AND ToInt32 b)"

definition ToUint8 :: "jsnum \<Rightarrow> int" where
  "ToUint8 x = (case x of Fin n \<Rightarrow> n mod 256 | _ \<Rightarrow> 0)"

definition Uint8Array :: "jsnum list \<Rightarrow> int list" where
  \<comment> \<open>\<^verbatim>\<open>new Uint8Array(command)\<close>: each element modulo 256\<close>
  "Uint8Array command = map ToUint8 command"

subsection \<open>Command tables\<close>

text \<open>\<^verbatim>\<open>this.COMMANDS\<close>, keyed by the protocol name; a name that is not a key gives \<^verbatim>\<open>undefined\<close>.\<close>

record command_table =
  POWER_ON :: "jsnum list"
  POWER_OFF :: "jsnum list"
  COLOR :: "jsnum \<Rightarrow> jsnum \<Rightarrow> jsnum \<Rightarrow> jsnum list"
  BRIGHTNESS :: "jsnum \<Rightarrow> jsnum list"
  EFFECT :: "jsnum \<Rightarrow> jsnum list"

definition COMMANDS_ELK_BLEDOM :: command_table where
  "COMMANDS_ELK_BLEDOM =
     \<lparr>POWER_ON = map Fin [0x7e, 0x04, 0x04, 0x01, 0xff, 0xff, 0xff, 0x00, 0xef],
      POWER_OFF = map Fin [0x7e, 0x04, 0x04, 0x00, 0xff, 0xff, 0xff, 0x00, 0xef],
      COLOR = (\<lambda>r g b. [Fin 0x7e, Fin 0x07, Fin 0x05, Fin 0x03, r, g, b, Fin 0x00, Fin 0xef]),
      BRIGHTNESS = (\<lambda>level. [Fin 0x7e, Fin 0x04, Fin 0x01, level, Fin 0xff, Fin 0xff, Fin 0xff,
                               Fin 0x00, Fin 0xef]),
      EFFECT = (\<lambda>i. [Fin 0x7e, Fin 0x05, Fin 0x03, i, Fin 0x03, Fin 0xff, Fin 0xff, Fin 0x00,
                       Fin 0xef])\<rparr>"

definition COMMANDS_GENERIC :: command_table where
  "COMMANDS_GENERIC =
     \<lparr>POWER_ON = map Fin [0x7e, 0x00, 0x04, 0xf0, 0x00, 0x01, 0xff, 0x00, 0xef],
      POWER_OFF = map Fin [0x7e, 0x00, 0x04, 0x00, 0x00, 0x00, 0xff, 0x00, 0xef],
      COLOR = (\<lambda>r g b.
                 let checksum = js_bitand (js_add (js_add r g) b) (Fin 0xFF)
                 in [Fin 0x7e, Fin 0x00, Fin 0x05, Fin 0x03, r, g, b, Fin 0x00, checksum, Fin 0xef]),
      BRIGHTNESS = (\<lambda>level. [Fin 0x7e, Fin 0x00, Fin 0x01, level, Fin 0xff, Fin 0xff, Fin 0xff,
                               Fin 0x00, Fin 0xef]),
      EFFECT = (\<lambda>i.
                  let effectId = Math_min (Fin 255) (Math_max (Fin 0) i)
                  in [Fin 0x7e, Fin 0x00, Fin 0x03, effectId, Fin 0x03, Fin 0xff, Fin 0xff,
                      Fin 0x00, Fin 0xef])\<rparr>"

definition COMMANDS :: "string \<rightharpoonup> command_table" where
  "COMMANDS = [''ELK_BLEDOM'' \<mapsto> COMMANDS_ELK_BLEDOM, ''GENERIC'' \<mapsto> COMMANDS_GENERIC]"

text \<open>
  \<^verbatim>\<open>DEVICE_CONFIG.PROTOCOLS\<close> of js/device-manager.js, a second table of frames; the device
  manager writes them to the characteristic in \<^verbatim>\<open>sendHardwareCommand\<close> and \<^verbatim>\<open>connectToDevice\<close>.
  The descriptions are display texts (German in the source, given here in ASCII).
\<close>

record protocol_commands =
  cmd_on :: "jsnum list"
  cmd_off :: "jsnum list"
  cmd_color :: "jsnum \<Rightarrow> jsnum \<Rightarrow> jsnum \<Rightarrow> jsnum list"
  cmd_brightness :: "jsnum \<Rightarrow> jsnum list"

record protocol_config =
  p_id :: string
  p_name :: string
  p_description :: string
  p_commands :: protocol_commands

definition PROTOCOLS :: "protocol_config list" where
  "PROTOCOLS =
     [\<lparr>p_id = ''ELK_BLEDOM'', p_name = ''ELK-BLEDOM (Standard)'',
       p_description = ''ELK-BLEDOM LED strips'',
       p_commands =
         \<lparr>cmd_on = map Fin [0x7E, 0x00, 0x04, 0x01, 0x00, 0x00, 0x00, 0xEF],
          cmd_off = map Fin [0x7E, 0x00, 0x04, 0x00, 0x00, 0x00, 0x00, 0xEF],
          cmd_color = (\<lambda>r g b. [Fin 0x7E, Fin 0x00, Fin 0x05, r, g, b, Fin 0x00, Fin 0xEF]),
          cmd_brightness = (\<lambda>val. [Fin 0x7E, Fin 0x00, Fin 0x0E, val, Fin 0x00, Fin 0x00,
                                     Fin 0x00, Fin 0xEF])\<rparr>\<rparr>,
      \<lparr>p_id = ''GENERIC'', p_name = ''Generic BLE LED'',
       p_description = ''generic BLE LED controllers'',
       p_commands =
         \<lparr>cmd_on = map Fin [0x01, 0xFF],
          cmd_off = map Fin [0x01, 0x00],
          cmd_color = (\<lambda>r g b. [Fin 0x02, r, g, b]),
          cmd_brightness = (\<lambda>val. [Fin 0x03, val])\<rparr>\<rparr>]"

definition protocolConfig :: "string \<Rightarrow> protocol_config option" where
  \<comment> \<open>\<^verbatim>\<open>DEVICE_CONFIG.PROTOCOLS.find(p => p.id === protocol)\<close>\<close>
  "protocolConfig name = find (\<lambda>p. p_id p = name) PROTOCOLS"

text \<open>
  The frames a table can produce, one for each operation, for given arguments; and what the
  wire format asks of a frame once it is a byte array: 8 to 10 bytes between the start
  byte \<open>0x7E\<close> and the end byte \<open>0xEF\<close>.
\<close>

definition table_frames ::
  "command_table \<Rightarrow> jsnum \<Rightarrow> jsnum \<Rightarrow> jsnum \<Rightarrow> jsnum \<Rightarrow> jsnum \<Rightarrow> jsnum list list" where
  "table_frames t r g b level effect =
     [POWER_ON t, POWER_OFF t, COLOR t r g b, BRIGHTNESS t level, EFFECT t effect]"

definition config_frames ::
  "protocol_commands \<Rightarrow> jsnum \<Rightarrow> jsnum \<Rightarrow> jsnum \<Rightarrow> jsnum \<Rightarrow> jsnum list list" where
  "config_frames c r g b val = [cmd_on c, cmd_off c, cmd_color c r g b, cmd_brightness c val]"

definition is_byte :: "int \<Rightarrow> bool" where
  "is_byte x = (0 \<le> x \<and> x \<le> 255)"

definition well_framed :: "int list \<Rightarrow> bool" where
  "well_framed f =
     (8 \<le> length f \<and> length f \<le> 10 \<and> list_all is_byte f \<and> hd f = 0x7E \<and> last f = 0xEF)"

subsection \<open>Session state and platform\<close>

text \<open>
  The fields of \<^verbatim>\<open>class BLEController\<close> that the command path reads and writes. The platform
  objects (\<^verbatim>\<open>BluetoothDevice\<close>, GATT server, service, characteristic) are opaque handles. The
  command path is modelled for a device object that has its \<^verbatim>\<open>gatt\<close> server, the one the
  characteristic of the session was reached through; \<^verbatim>\<open>disconnect()\<close>, which any session may be
  given, takes the server as an input of its own.
\<close>

type_synonym handle = nat

record ble_controller =
  device :: "handle option"
  server :: "handle option"
  service :: "handle option"
  characteristic :: "handle option"
  isConnected :: bool
  protocol :: "string option"
  deviceName :: "string option"
  deviceId :: "string option"
  lastCommandTime :: int
  commandDelay :: int

definition new_BLEController :: ble_controller where
  \<comment> \<open>the constructor\<close>
  "new_BLEController =
     \<lparr>device = None, server = None, service = None, characteristic = None, isConnected = False,
      protocol = None, deviceName = None, deviceId = None, lastCommandTime = 0, commandDelay = 50\<rparr>"

text \<open>
  What the platform does during one call of \<^verbatim>\<open>sendCommand\<close>, by the number of the attempt:
  the clock at the flood check, whether \<^verbatim>\<open>device.gatt.connected\<close> holds, how far a reconnection
  gets, what becomes of the write, the clock after a write that resolved, and whether
  \<^verbatim>\<open>window.showGlobalNotification\<close> is defined. One flow of control is modelled: no other
  handler changes the session while \<^verbatim>\<open>sendCommand\<close> is suspended.
\<close>

datatype reconnect_outcome =
  GattConnectFails
| ServiceLookupFails handle
| CharacteristicLookupFails handle handle
| Reconnected handle handle handle

datatype write_outcome = WriteResolves | WriteRejects | WriteHangs

record platform =
  dateNow :: "nat \<Rightarrow> int"
  gattConnected :: "nat \<Rightarrow> bool"
  reconnectOutcome :: "nat \<Rightarrow> reconnect_outcome"
  writeOutcome :: "nat \<Rightarrow> write_outcome"
  dateNowAfterWrite :: "nat \<Rightarrow> int"
  showGlobalNotification :: bool

text \<open>What a call does to the outside, in order: the timers it waits for and the platform calls.\<close>

datatype event =
  FloodWait int
| Reconnect
| WriteValue handle "int list"
| Timeout int
| Settle int
| Backoff int
| Notification nat
| GattDisconnect

subsection \<open>Sending a command\<close>

text \<open>
  \<^verbatim>\<open>reconnect()\<close> returns \<^verbatim>\<open>true\<close>, \<^verbatim>\<open>false\<close> (an await threw: the fields assigned before it keep
  their new values) or nothing (no device).
\<close>

definition reconnect :: "platform \<Rightarrow> nat \<Rightarrow> ble_controller \<Rightarrow> bool option \<times> ble_controller" where
  "reconnect p attempt s =
     (case device s of
        None \<Rightarrow> (None, s)
      | Some _ \<Rightarrow>
          (case reconnectOutcome p attempt of
             GattConnectFails \<Rightarrow> (Some False, s\<lparr>isConnected := False\<rparr>)
           | ServiceLookupFails srv \<Rightarrow> (Some False, s\<lparr>server := Some srv, isConnected := False\<rparr>)
           | CharacteristicLookupFails srv svc \<Rightarrow>
               (Some False, s\<lparr>server := Some srv, service := Some svc, isConnected := False\<rparr>)
           | Reconnected srv svc ch \<Rightarrow>
               (Some True, s\<lparr>server := Some srv, service := Some svc, characteristic := Some ch\<rparr>)))"

text \<open>
  The body of the \<^verbatim>\<open>try\<close> block for one attempt: \<open>True\<close> when it reached \<^verbatim>\<open>return true\<close>,
  \<open>False\<close> when it threw. Reading \<^verbatim>\<open>this.device.gatt\<close> with no device and calling
  \<^verbatim>\<open>writeValue\<close> with no characteristic throw a \<^verbatim>\<open>TypeError\<close>, which the \<^verbatim>\<open>catch\<close> takes like
  any other. The value of \<^verbatim>\<open>reconnect()\<close> is not looked at.
\<close>

definition attemptSend ::
  "platform \<Rightarrow> jsnum list \<Rightarrow> nat \<Rightarrow> ble_controller \<Rightarrow> bool \<times> ble_controller \<times> event list" where
  "attemptSend p command attempt s =
     (let now = dateNow p attempt;
          timeSinceLastCommand = now - lastCommandTime s;
          flood = (if timeSinceLastCommand < commandDelay s
                   then [FloodWait (commandDelay s - timeSinceLastCommand)] else [])
      in case device s of
           None \<Rightarrow> (False, s, flood)
         | Some _ \<Rightarrow>
             let s1 = (if \<not> gattConnected p attempt then snd (reconnect p attempt s) else s);
                 rc = (if \<not> gattConnected p attempt then [Reconnect] else [])
             in case characteristic s1 of
                  None \<Rightarrow> (False, s1, flood @ rc)
                | Some ch \<Rightarrow>
                    let data = Uint8Array command
                    in case writeOutcome p attempt of
                         WriteResolves \<Rightarrow>
                           (True, s1\<lparr>lastCommandTime := dateNowAfterWrite p attempt\<rparr>,
                            flood @ rc @ [WriteValue ch data, Settle 50])
                       | WriteRejects \<Rightarrow> (False, s1, flood @ rc @ [WriteValue ch data])
                       | WriteHangs \<Rightarrow> (False, s1, flood @ rc @ [WriteValue ch data, Timeout 5000]))"

text \<open>The loop \<^verbatim>\<open>for (let attempt = 1; attempt <= retries; attempt++)\<close>, from \<open>attempt\<close> on.\<close>

function sendLoop ::
  "platform \<Rightarrow> jsnum list \<Rightarrow> nat \<Rightarrow> nat \<Rightarrow> ble_controller \<Rightarrow> bool \<times> ble_controller \<times> event list" where
  "sendLoop p command retries attempt s =
     (if attempt \<le> retries then
        (let r = attemptSend p command attempt s
         in if fst r then r
            else if attempt = retries
            then (False, fst (snd r),
                  snd (snd r) @ (if showGlobalNotification p then [Notification retries] else []))
            else (let r' = sendLoop p command retries (attempt + 1) (fst (snd r))
                  in (fst r', fst (snd r'),
                      snd (snd r) @ [Backoff (100 * int attempt)] @ snd (snd r'))))
      else (False, s, []))"
  by pat_completeness auto
termination
  by (relation "measure (\<lambda>(p, command, retries, attempt, s). retries + 1 - attempt)") auto

declare sendLoop.simps [simp del]

definition sendCommand ::
  "platform \<Rightarrow> jsnum list \<Rightarrow> nat \<Rightarrow> ble_controller \<Rightarrow> bool \<times> ble_controller \<times> event list" where
  "sendCommand p command retries s =
     (if \<not> isConnected s \<or> characteristic s = None then (False, s, [])
      else sendLoop p command retries 1 s)"

text \<open>
  The part of a trace that the retry budget is about: the writes and the waits between
  attempts, in the order they happened.
\<close>

datatype retry_step = Write | Wait int

fun retry_steps :: "event list \<Rightarrow> retry_step list" where
  "retry_steps [] = []"
| "retry_steps (WriteValue _ _ # es) = Write # retry_steps es"
| "retry_steps (Backoff ms # es) = Wait ms # retry_steps es"
| "retry_steps (_ # es) = retry_steps es"

definition write_count :: "event list \<Rightarrow> nat" where
  "write_count es = length (filter (\<lambda>step. step = Write) (retry_steps es))"

subsection \<open>Values and \<^verbatim>\<open>parseInt\<close>\<close>

text \<open>
  The arguments of \<^verbatim>\<open>setColorRGB\<close> are JavaScript values: \<^verbatim>\<open>undefined\<close>, \<^verbatim>\<open>null\<close>, a boolean, a
  number or a string. A number is \<^verbatim>\<open>NaN\<close>, an infinity or an integer (\<open>JNumber\<close>), or a finite
  number given by its exact value (\<open>JFraction\<close>, for the numbers with a fraction). A string is
  the sequence of its UTF-16 code units. Objects, whose conversion to a string runs code of
  their own, symbols and bigints are not represented.
\<close>

type_synonym code_unit = nat

datatype jsval =
  JUndefined
| JNull
| JBoolean bool
| JNumber jsnum
| JFraction rat
| JString "code_unit list"

definition utf16 :: "string \<Rightarrow> code_unit list" where
  \<comment> \<open>the code units of an ASCII text\<close>
  "utf16 s = map of_char s"

text \<open>
  \<^verbatim>\<open>parseInt(string)\<close> with no radix (ECMA-262, 19.2.5): leading white space and line
  terminators are skipped, then a sign, then \<^verbatim>\<open>0x\<close> or \<^verbatim>\<open>0X\<close>, which makes the radix 16; the
  longest run of digits of the radix that follows is the integer read, and there is none
  when the run is empty. What follows the run is ignored.
\<close>

definition isStrWhiteSpaceChar :: "code_unit \<Rightarrow> bool" where
  \<comment> \<open>TAB, LF, VT, FF, CR, SP, NBSP, the other space separators of Unicode, LS, PS, ZWNBSP\<close>
  "isStrWhiteSpaceChar c =
     (c \<in> set [0x0009, 0x000A, 0x000B, 0x000C, 0x000D, 0x0020, 0x00A0, 0x1680, 0x2000, 0x2001,
                0x2002, 0x2003, 0x2004, 0x2005, 0x2006, 0x2007, 0x2008, 0x2009, 0x200A, 0x2028,
                0x2029, 0x202F, 0x205F, 0x3000, 0xFEFF])"

definition digitValue :: "code_unit \<Rightarrow> nat option" where
  \<comment> \<open>\<^verbatim>\<open>0\<close>..\<^verbatim>\<open>9\<close>, and \<^verbatim>\<open>a\<close>..\<^verbatim>\<open>z\<close> or \<^verbatim>\<open>A\<close>..\<^verbatim>\<open>Z\<close> for 10..35\<close>
  "digitValue c =
     (if 0x30 \<le> c \<and> c \<le> 0x39 then Some (c - 0x30)
      else if 0x61 \<le> c \<and> c \<le> 0x7A then Some (c - 0x61 + 10)
      else if 0x41 \<le> c \<and> c \<le> 0x5A then Some (c - 0x41 + 10)
      else None)"

definition isRadixDigit :: "nat \<Rightarrow> code_unit \<Rightarrow> bool" where
  "isRadixDigit R c = (case digitValue c of None \<Rightarrow> False | Some v \<Rightarrow> v < R)"

definition mathInt :: "nat \<Rightarrow> code_unit list \<Rightarrow> nat" where
  \<comment> \<open>the integer that a run of digits writes in radix \<open>R\<close>\<close>
  "mathInt R Z =
     foldl (\<lambda>acc c. case digitValue c of None \<Rightarrow> acc | Some v \<Rightarrow> acc * R + v) 0 Z"

definition leadingInteger :: "code_unit list \<Rightarrow> int option" where
  "leadingInteger inputString =
     (let S = dropWhile isStrWhiteSpaceChar inputString;
          sign = (case S of c # _ \<Rightarrow> if c = 0x2D then - 1 else 1 | [] \<Rightarrow> (1::int));
          S1 = (case S of c # rest \<Rightarrow> if c = 0x2B \<or> c = 0x2D then rest else S | [] \<Rightarrow> S);
          hex = (case S1 of a # b # _ \<Rightarrow> a = 0x30 \<and> (b = 0x78 \<or> b = 0x58) | _ \<Rightarrow> False);
          R = (if hex then 16 else 10);
          S2 = (if hex then drop 2 S1 else S1);
          Z = takeWhile (isRadixDigit R) S2
      in if Z = [] then None else Some (sign * int (mathInt R Z)))"

text \<open>
  The number value of an integer: beyond the largest double the result is an infinity.
  Below that, JavaScript keeps the nearest double, which is the integer itself up to
  \<open>2 ^ 53\<close>; the model keeps the integer.
\<close>

definition toNumber :: "int \<Rightarrow> jsnum" where
  "toNumber v =
     (if 2 ^ 1024 - 2 ^ 970 \<le> v then PosInf
      else if v \<le> - (2 ^ 1024 - 2 ^ 970) then NegInf
      else Fin v)"

definition parseInt_string :: "code_unit list \<Rightarrow> jsnum" where
  "parseInt_string inputString =
     (case leadingInteger inputString of None \<Rightarrow> NaN | Some v \<Rightarrow> toNumber v)"

text \<open>
  \<^verbatim>\<open>parseInt\<close> of any value reads the text that \<^verbatim>\<open>ToString\<close> makes of it. The texts
  \<^verbatim>\<open>undefined\<close>, \<^verbatim>\<open>null\<close>, \<^verbatim>\<open>true\<close>, \<^verbatim>\<open>false\<close>, \<^verbatim>\<open>NaN\<close>, \<^verbatim>\<open>Infinity\<close> and \<^verbatim>\<open>-Infinity\<close> are read
  as they are. A finite number of magnitude at least \<open>1 / 10 ^ 6\<close> and below \<open>10 ^ 21\<close>, and zero, is
  printed in decimal notation, its integer part before the point: what is read back is the
  number without its fraction. Any other finite number is printed in exponent notation,
  with digits that depend on its binary representation: \<open>numberToString\<close> is the platform's
  printing of those.
\<close>

definition truncate :: "rat \<Rightarrow> int" where
  \<comment> \<open>the integer part, towards zero\<close>
  "truncate x = (if 0 \<le> x then \<lfloor>x\<rfloor> else - \<lfloor>- x\<rfloor>)"

definition decimalNotation :: "rat \<Rightarrow> bool" where
  "decimalNotation x = (x = 0 \<or> (1 / 10 ^ 6 \<le> \<bar>x\<bar> \<and> \<bar>x\<bar> < 10 ^ 21))"

definition parseInt :: "(rat \<Rightarrow> code_unit list) \<Rightarrow> jsval \<Rightarrow> jsnum" where
  "parseInt numberToString v =
     (case v of
        JUndefined \<Rightarrow> parseInt_string (utf16 ''undefined'')
      | JNull \<Rightarrow> parseInt_string (utf16 ''null'')
      | JBoolean b \<Rightarrow> parseInt_string (utf16 (if b then ''true'' else ''false''))
      | JNumber NaN \<Rightarrow> parseInt_string (utf16 ''NaN'')
      | JNumber PosInf \<Rightarrow> parseInt_string (utf16 ''Infinity'')
      | JNumber NegInf \<Rightarrow> parseInt_string (utf16 ''-Infinity'')
      | JNumber (Fin n) \<Rightarrow>
          if decimalNotation (of_int n) then Fin n else parseInt_string (numberToString (of_int n))
      | JFraction x \<Rightarrow>
          if decimalNotation x then Fin (truncate x) else parseInt_string (numberToString x)
      | JString s \<Rightarrow> parseInt_string s)"

subsection \<open>Setting a colour\<close>

text \<open>
  \<open>validate\<close> is the expression \<^verbatim>\<open>Math.max(0, Math.min(255, parseInt(v) || 0))\<close>,
  \<open>colorCommand\<close> the constant \<^verbatim>\<open>command\<close> of \<^verbatim>\<open>setColorRGB\<close>; \<^verbatim>\<open>this.COMMANDS[this.protocol]\<close>
  is \<^verbatim>\<open>undefined\<close> for a protocol that is \<^verbatim>\<open>null\<close> or no key, and reading \<^verbatim>\<open>COLOR\<close> from it throws.
  \<^verbatim>\<open>sendCommand\<close> is called with its default of 3 retries.
\<close>

definition validate :: "(rat \<Rightarrow> code_unit list) \<Rightarrow> jsval \<Rightarrow> jsnum" where
  "validate numberToString v =
     Math_max (Fin 0) (Math_min (Fin 255) (js_or (parseInt numberToString v) (Fin 0)))"

definition colorCommand ::
  "(rat \<Rightarrow> code_unit list) \<Rightarrow> string option \<Rightarrow> jsval \<Rightarrow> jsval \<Rightarrow> jsval \<Rightarrow> jsnum list option" where
  "colorCommand numberToString proto r g b =
     (let r' = validate numberToString r;
          g' = validate numberToString g;
          b' = validate numberToString b
      in case Option.bind proto COMMANDS of
           None \<Rightarrow> None
         | Some table \<Rightarrow> Some (COLOR table r' g' b'))"

definition setColorRGB ::
  "(rat \<Rightarrow> code_unit list) \<Rightarrow> platform \<Rightarrow> jsval \<Rightarrow> jsval \<Rightarrow> jsval \<Rightarrow> ble_controller \<Rightarrow>
   js_error + (bool \<times> ble_controller \<times> event list)" where
  "setColorRGB numberToString p r g b s =
     (case colorCommand numberToString (protocol s) r g b of
        None \<Rightarrow> Inl TypeError
      | Some command \<Rightarrow> Inr (sendCommand p command 3 s))"

text \<open>The byte that a channel argument becomes in the \<^verbatim>\<open>Uint8Array\<close> that is written.\<close>

definition channel :: "(rat \<Rightarrow> code_unit list) \<Rightarrow> jsval \<Rightarrow> int" where
  "channel numberToString v = ToUint8 (validate numberToString v)"

text \<open>
  The channel value as the specification words it: a number outside 0..255 is clamped, and
  what is not a number gives 0.
\<close>

definition clamp :: "int \<Rightarrow> int" where
  "clamp n = (if n < 0 then 0 else if 255 < n then 255 else n)"

definition spec_clamp :: "jsnum \<Rightarrow> int" where
  "spec_clamp x =
     (case x of
        NaN \<Rightarrow> 0
      | Fin n \<Rightarrow> clamp n
      | PosInf \<Rightarrow> 255
      | NegInf \<Rightarrow> 0)"

subsection \<open>Disconnecting\<close>

text \<open>
  \<^verbatim>\<open>disconnect()\<close>. \<open>gatt\<close> is what the platform holds in \<^verbatim>\<open>this.device.gatt\<close> at the call:
  \<open>None\<close> when the device object has no GATT server (the attribute is \<^verbatim>\<open>null\<close>), and otherwise
  the value of its \<^verbatim>\<open>connected\<close>. It is read only when there is a device. With a device that
  has no server, reading \<^verbatim>\<open>connected\<close> throws a \<^verbatim>\<open>TypeError\<close> before any field is assigned: the
  session stays as it was. The call is synchronous; the \<^verbatim>\<open>gattserverdisconnected\<close> listener
  that the platform runs afterwards is another flow of control and no part of it.
\<close>

definition disconnect ::
  "bool option \<Rightarrow> ble_controller \<Rightarrow> js_error + (ble_controller \<times> event list)" where
  "disconnect gatt s =
     (let cleared = s\<lparr>isConnected := False, device := None, server := None, service := None,
                      characteristic := None\<rparr>
      in case device s of
           None \<Rightarrow> Inr (cleared, [])
         | Some _ \<Rightarrow>
             (case gatt of
                None \<Rightarrow> Inl TypeError
              | Some linkOpen \<Rightarrow> Inr (cleared, if linkOpen then [GattDisconnect] else [])))"

text \<open>The state that \<^verbatim>\<open>disconnect()\<close> ends in.\<close>

definition disconnected :: "ble_controller \<Rightarrow> bool" where
  "disconnected s =
     (\<not> isConnected s \<and> device s = None \<and> server s = None \<and> service s = None \<and>
      characteristic s = None)"

subsection \<open>Example registry\<close>

text \<open>The registry as the constructor leaves it when nothing is stored, and a device as
  \<^verbatim>\<open>scanForDevices\<close> records it.\<close>

definition new_DeviceManager :: device_manager where
  "new_DeviceManager =
     \<lparr>devices = [], groups = [], connectionHistory = [], localStorage = Map.empty,
      quotaExceeded = False\<rparr>"

definition example_device :: device_record where
  "example_device =
     \<lparr>d_id = ''lamp-1'', d_name = ''ELK-BLEDOM-42'', d_originalName = ''ELK-BLEDOM-42'',
      d_mac = ''lamp-1'', d_protocol = ''ELK_BLEDOM'', d_autoConnect = False, d_group = None,
      d_favorite = False, d_rssi = None, d_lastConnected = None, d_connectionCount = 0,
      d_notes = [], d_createdAt = 0, d_updatedAt = 0\<rparr>"

definition example_calls :: "history_call list" where
  \<comment> \<open>150 calls, the call number as the clock reading\<close>
  "example_calls = map (\<lambda>i. (int i, example_device, ''connected'')) [0..<150]"

definition living_room_registry :: device_manager where
  \<comment> \<open>one device; the group \<^verbatim>\<open>Living Room\<close> and its subgroup \<^verbatim>\<open>Lamp\<close>, which the device is in\<close>
  "living_room_registry =
     saveGroups (saveDevices (new_DeviceManager
       \<lparr>devices := [example_device\<lparr>d_group := Some ''device_2000_b'', d_updatedAt := 3000\<rparr>],
        groups :=
          [\<lparr>g_id = ''device_1000_a'', g_name = ''Living Room'', g_description = [],
            g_devices = [], g_parentGroup = None, g_subGroups = [''device_2000_b''], g_level = 0,
            g_createdAt = 1000, g_updatedAt = 2000\<rparr>,
           \<lparr>g_id = ''device_2000_b'', g_name = ''Lamp'', g_description = [],
            g_devices = [''lamp-1''], g_parentGroup = Some ''device_1000_a'', g_subGroups = [],
            g_level = 1, g_createdAt = 2000, g_updatedAt = 3000\<rparr>]\<rparr>))"

definition example_group :: "string \<Rightarrow> string \<Rightarrow> string list \<Rightarrow> group_record" where
  \<comment> \<open>a group of the top level with the given id, name and members\<close>
  "example_group gid name members =
     \<lparr>g_id = gid, g_name = name, g_description = [], g_devices = members, g_parentGroup = None,
      g_subGroups = [], g_level = 0, g_createdAt = 1000, g_updatedAt = 1000\<rparr>"

definition empty_id_registry :: device_manager where
  \<comment> \<open>one device in no group, and two empty groups, the first with the empty string as its id\<close>
  "empty_id_registry =
     new_DeviceManager
       \<lparr>devices := [example_device],
        groups := [example_group [] ''Hall'' [], example_group ''device_2000_b'' ''Lamp'' []]\<rparr>"

definition stale_member_registry :: device_manager where
  \<comment> \<open>the lamp was in the group \<^verbatim>\<open>Kitchen\<close> when \<^verbatim>\<open>deleteDevice\<close> removed its record, which leaves
      the member lists of the groups alone; \<^verbatim>\<open>scanForDevices\<close> then found the lamp again and
      recorded it anew, with no group\<close>
  "stale_member_registry =
     new_DeviceManager
       \<lparr>devices := [example_device],
        groups := [example_group ''device_3000_c'' ''Kitchen'' [''lamp-1''],
                   example_group ''device_1000_a'' ''Living Room'' [],
                   example_group ''device_2000_b'' ''Lamp'' []]\<rparr>"

definition example_clock :: clock where
  "example_clock k = 4000"

subsection \<open>Example session and platforms\<close>

definition connected_session :: ble_controller where
  \<comment> \<open>a session after \<^verbatim>\<open>connect\<close> to an ELK-BLEDOM strip\<close>
  "connected_session =
     \<lparr>device = Some 1, server = Some 2, service = Some 3, characteristic = Some 4,
      isConnected = True, protocol = Some ''ELK_BLEDOM'', deviceName = Some ''ELK-BLEDOM-42'',
      deviceId = Some ''lamp-1'', lastCommandTime = 0, commandDelay = 50\<rparr>"


definition failing_platform :: platform where
  \<comment> \<open>the link stays open and every write is rejected at once; the clock reads 1000 ms more
      at each attempt\<close>
  "failing_platform =
     \<lparr>dateNow = (\<lambda>k. 1000 * int k), gattConnected = (\<lambda>_. True),
      reconnectOutcome = (\<lambda>_. GattConnectFails), writeOutcome = (\<lambda>_. WriteRejects),
      dateNowAfterWrite = (\<lambda>k. 1000 * int k + 20), showGlobalNotification = True\<rparr>"

definition lost_link_platform :: platform where
  \<comment> \<open>the link is gone, the reconnection fails at \<^verbatim>\<open>gatt.connect()\<close> and the platform rejects
      every write\<close>
  "lost_link_platform = failing_platform\<lparr>gattConnected := (\<lambda>_. False)\<rparr>"

definition red_command :: "jsnum list" where
  "red_command = COLOR COMMANDS_ELK_BLEDOM (Fin 255) (Fin 0) (Fin 0)"

definition exponent_1e21 :: "rat \<Rightarrow> code_unit list" where
  \<comment> \<open>the printing of a platform that is asked only about \<open>10 ^ 21\<close>, which is \<^verbatim>\<open>1e+21\<close>\<close>
  "exponent_1e21 x = utf16 ''1e+21''"

section \<open>Properties of the device registry\<close>

subsection \<open>The history is capped\<close>

lemma connectionHistory_setItem [simp]:
  "connectionHistory (setItem key v m) = connectionHistory m"
  by (simp add: setItem_def)

lemma connectionHistory_addToHistory:
  "connectionHistory (addToHistory now dv action m) =
     take 100 (new_entry now dv action # connectionHistory m)"
  by (simp add: addToHistory_def saveHistory_def Let_def)

lemma take_append_take:
  "take n (xs @ take n ys) = take n (xs @ ys)"
  by (simp add: min_def)

lemma history_after_calls:
  "cs \<noteq> [] \<Longrightarrow>
   connectionHistory (addToHistory_seq cs m) =
     take 100 (rev (map entry_of cs) @ connectionHistory m)"
proof (induction cs arbitrary: m)
  case Nil
  then show ?case by simp
next
  case (Cons c cs)
  obtain now dv action where c: "c = (now, dv, action)"
    by (cases c) auto
  let ?m1 = "addToHistory now dv action m"
  have h1: "connectionHistory ?m1 = take 100 (entry_of c # connectionHistory m)"
    by (simp add: c entry_of_def connectionHistory_addToHistory)
  show ?case
  proof (cases "cs = []")
    case True
    then show ?thesis using h1 by (simp add: c)
  next
    case False
    have "connectionHistory (addToHistory_seq (c # cs) m) =
            take 100 (rev (map entry_of cs) @ connectionHistory ?m1)"
      using Cons.IH [OF False, of ?m1] by (simp add: c)
    also have "\<dots> = take 100 (rev (map entry_of cs) @ take 100 (entry_of c # connectionHistory m))"
      by (simp only: h1)
    also have "\<dots> = take 100 (rev (map entry_of cs) @ entry_of c # connectionHistory m)"
      by (rule take_append_take)
    finally show ?thesis by simp
  qed
qed

lemma history_length_after_calls:
  "cs \<noteq> [] \<or> length (connectionHistory m) \<le> 100 \<Longrightarrow>
   length (connectionHistory (addToHistory_seq cs m)) \<le> 100"
proof (cases "cs = []")
  case True
  assume "cs \<noteq> [] \<or> length (connectionHistory m) \<le> 100"
  with True show ?thesis by simp
next
  case False
  then show ?thesis by (simp add: history_after_calls)
qed

lemma history_after_150_calls:
  assumes "length cs = 150"
  shows "connectionHistory (addToHistory_seq cs m) = rev (map entry_of (drop 50 cs))"
proof -
  from assms have ne: "cs \<noteq> []" by auto
  have "connectionHistory (addToHistory_seq cs m) =
          take 100 (rev (map entry_of cs) @ connectionHistory m)"
    by (rule history_after_calls [OF ne])
  also have "\<dots> = take 100 (rev (map entry_of cs))"
    using assms by simp
  also have "\<dots> = rev (drop 50 (map entry_of cs))"
    using assms by (simp add: take_rev)
  finally show ?thesis by (simp add: drop_map)
qed

text \<open>
  Claim C8. Whatever calls of \<^verbatim>\<open>addToHistory\<close> are made, one after the other, the history
  never has more than 100 entries (from the first call on, and from the start when the
  loaded history had at most 100); it is the first 100 elements of the new entries, newest
  first, followed by the entries that were there before, so that the oldest are the ones
  dropped. After 150 calls the history has exactly 100 entries, the entries of calls 51 to
  150, the latest call first.
\<close>

theorem C8_history_cap:
  "(cs \<noteq> [] \<or> length (connectionHistory m) \<le> 100 \<longrightarrow>
      length (connectionHistory (addToHistory_seq cs m)) \<le> 100) \<and>
   (cs \<noteq> [] \<longrightarrow>
      connectionHistory (addToHistory_seq cs m) =
        take 100 (rev (map entry_of cs) @ connectionHistory m)) \<and>
   (length cs = 150 \<longrightarrow>
      length (connectionHistory (addToHistory_seq cs m)) = 100 \<and>
      connectionHistory (addToHistory_seq cs m) = rev (map entry_of (drop 50 cs)))"
proof (intro conjI impI)
  assume "cs \<noteq> [] \<or> length (connectionHistory m) \<le> 100"
  then show "length (connectionHistory (addToHistory_seq cs m)) \<le> 100"
    by (rule history_length_after_calls)
next
  assume "cs \<noteq> []"
  then show "connectionHistory (addToHistory_seq cs m) =
               take 100 (rev (map entry_of cs) @ connectionHistory m)"
    by (rule history_after_calls)
next
  assume l: "length cs = 150"
  show "length (connectionHistory (addToHistory_seq cs m)) = 100"
    using l by (simp add: history_after_150_calls)
next
  assume l: "length cs = 150"
  show "connectionHistory (addToHistory_seq cs m) = rev (map entry_of (drop 50 cs))"
    using l by (rule history_after_150_calls)
qed

theorem C8_witness:
  "example_calls \<noteq> [] \<and> length example_calls = 150 \<and>
   length (connectionHistory (addToHistory_seq example_calls new_DeviceManager)) = 100 \<and>
   map h_timestamp (connectionHistory (addToHistory_seq example_calls new_DeviceManager)) =
     rev (map int [50..<150])"
proof -
  have l: "length example_calls = 150"
    by (simp add: example_calls_def)
  then have ne: "example_calls \<noteq> []" by auto
  have d: "drop 50 example_calls = map (\<lambda>i. (int i, example_device, ''connected'')) [50..<150]"
    by (simp add: example_calls_def drop_map del: upt_rec_numeral)
  have ts: "map h_timestamp (rev (map entry_of (drop 50 example_calls))) = rev (map int [50..<150])"
    unfolding d by (simp add: rev_map comp_def entry_of_def new_entry_def del: upt_rec_numeral)
  note c = C8_history_cap [of example_calls new_DeviceManager]
  from c l have len: "length (connectionHistory (addToHistory_seq example_calls new_DeviceManager)) = 100"
    by blast
  from c l have h: "connectionHistory (addToHistory_seq example_calls new_DeviceManager) =
              rev (map entry_of (drop 50 example_calls))"
    by blast
  from ne l len ts [folded h] show ?thesis by blast
qed

subsection \<open>Group membership\<close>

lemma find_update_first_same:
  "(\<And>x. P (f x) = P x) \<Longrightarrow> find P (update_first P f xs) = map_option f (find P xs)"
  by (induction xs) auto

lemma find_update_first_other:
  "(\<And>x. Q (f x) = Q x) \<Longrightarrow> (\<And>x. P x \<Longrightarrow> \<not> Q x) \<Longrightarrow>
   find Q (update_first P f xs) = find Q xs"
  by (induction xs) auto

lemma find_update_first_None:
  "(\<And>x. Q (f x) = Q x) \<Longrightarrow> (find Q (update_first P f xs) = None) = (find Q xs = None)"
  by (induction xs) auto

lemma groups_setItem [simp]: "groups (setItem k v m) = groups m"
  by (simp add: setItem_def)

lemma devices_setItem [simp]: "devices (setItem k v m) = devices m"
  by (simp add: setItem_def)

lemma addDeviceToGroup_device:
  assumes "addDeviceToGroup now d g m = Inr m'"
  shows "\<exists>dev. getDeviceById d m' = Some dev \<and> d_group dev = Some g"
  using assms
  by (auto simp: addDeviceToGroup_def getDeviceById_def getGroupById_def Let_def saveGroups_def saveDevices_def
       find_update_first_same split: option.splits)


lemma addDeviceToGroup_Inr:
  assumes "addDeviceToGroup now d g m = Inr m'"
  obtains dv grp where
    "getDeviceById d m = Some dv" "getGroupById g m = Some grp"
    "devices m' =
       update_first (\<lambda>x. d_id x = d) (\<lambda>x. x\<lparr>d_updatedAt := now 1\<rparr>)
         (update_first (\<lambda>x. d_id x = d) (\<lambda>x. x\<lparr>d_group := Some g\<rparr>) (devices m))"
    "groups m' =
       update_first (\<lambda>x. g_id x = g) (\<lambda>x. x\<lparr>g_updatedAt := now 0\<rparr>)
         (update_first (\<lambda>x. g_id x = g)
            (\<lambda>x. if d \<in> set (g_devices x) then x else x\<lparr>g_devices := g_devices x @ [d]\<rparr>)
            (if truthy (d_group dv)
             then update_first (\<lambda>x. Some (g_id x) = d_group dv)
                    (\<lambda>x. x\<lparr>g_devices := filter (\<lambda>i. i \<noteq> d) (g_devices x)\<rparr>) (groups m)
             else groups m))"
  using assms
  by (auto simp: addDeviceToGroup_def Let_def saveGroups_def saveDevices_def split: option.splits)


lemma find_update_first_Some:
  "(\<And>x. Q (f x) = Q x) \<Longrightarrow> find Q xs = Some y \<Longrightarrow> \<exists>z. find Q (update_first P f xs) = Some z"
  using find_update_first_None [of Q f P xs] by auto

lemma addDeviceToGroup_keeps_groups:
  assumes "addDeviceToGroup now d g m = Inr m'"
  shows "(getGroupById k m' = None) = (getGroupById k m = None)"
  using assms
  by (elim addDeviceToGroup_Inr) (simp add: getGroupById_def find_update_first_None)

lemma addDeviceToGroup_member:
  assumes "addDeviceToGroup now d g m = Inr m'"
  shows "\<exists>G. getGroupById g m' = Some G \<and> d \<in> set (g_devices G)"
proof (rule addDeviceToGroup_Inr [OF assms])
  fix dv grp
  assume grp: "getGroupById g m = Some grp"
    and gs: "groups m' =
       update_first (\<lambda>x. g_id x = g) (\<lambda>x. x\<lparr>g_updatedAt := now 0\<rparr>)
         (update_first (\<lambda>x. g_id x = g)
            (\<lambda>x. if d \<in> set (g_devices x) then x else x\<lparr>g_devices := g_devices x @ [d]\<rparr>)
            (if truthy (d_group dv)
             then update_first (\<lambda>x. Some (g_id x) = d_group dv)
                    (\<lambda>x. x\<lparr>g_devices := filter (\<lambda>i. i \<noteq> d) (g_devices x)\<rparr>) (groups m)
             else groups m))"
  define gs1 where "gs1 = (if truthy (d_group dv)
             then update_first (\<lambda>x. Some (g_id x) = d_group dv)
                    (\<lambda>x. x\<lparr>g_devices := filter (\<lambda>i. i \<noteq> d) (g_devices x)\<rparr>) (groups m)
             else groups m)"
  have "\<exists>G1. find (\<lambda>x. g_id x = g) gs1 = Some G1"
    using grp find_update_first_Some [of "\<lambda>x. g_id x = g" _ "groups m" grp]
    by (simp add: gs1_def getGroupById_def)
  then obtain G1 where G1: "find (\<lambda>x. g_id x = g) gs1 = Some G1" by auto
  show ?thesis
    unfolding getGroupById_def gs gs1_def [symmetric]
    by (simp add: find_update_first_same G1)
qed

lemma addDeviceToGroup_leaves_old:
  assumes "addDeviceToGroup now d g2 m = Inr m'"
    and "getDeviceById d m = Some dv" and "d_group dv = Some g1"
    and "g1 \<noteq> []" and "g1 \<noteq> g2" and "getGroupById g1 m = Some G"
  shows "\<exists>G1. getGroupById g1 m' = Some G1 \<and> d \<notin> set (g_devices G1)"
proof -
  have t: "truthy (Some g1)" using assms(4) by (simp add: truthy_def)
  have "find (\<lambda>x. g_id x = g1) (groups m') =
        find (\<lambda>x. g_id x = g1)
          (update_first (\<lambda>x. g_id x = g1)
             (\<lambda>x. x\<lparr>g_devices := filter (\<lambda>i. i \<noteq> d) (g_devices x)\<rparr>) (groups m))"
  proof -
    have gs: "groups m' =
       update_first (\<lambda>x. g_id x = g2) (\<lambda>x. x\<lparr>g_updatedAt := now 0\<rparr>)
         (update_first (\<lambda>x. g_id x = g2)
            (\<lambda>x. if d \<in> set (g_devices x) then x else x\<lparr>g_devices := g_devices x @ [d]\<rparr>)
            (update_first (\<lambda>x. g_id x = g1)
                    (\<lambda>x. x\<lparr>g_devices := filter (\<lambda>i. i \<noteq> d) (g_devices x)\<rparr>) (groups m)))"
      using assms(1,2,3) by (elim addDeviceToGroup_Inr) (simp add: t)
    show ?thesis
      unfolding gs
      apply (subst find_update_first_other, simp, simp add: assms(5) [symmetric])
      apply (subst find_update_first_other, simp, simp add: assms(5) [symmetric])
      apply (rule refl)
      done
  qed
  also have "\<dots> = Some (G\<lparr>g_devices := filter (\<lambda>i. i \<noteq> d) (g_devices G)\<rparr>)"
    using assms(6) by (simp add: find_update_first_same getGroupById_def)
  finally show ?thesis by (simp add: getGroupById_def)
qed

lemma addDeviceToGroup_succeeds:
  "getDeviceById d m = Some dev \<Longrightarrow> getGroupById g m = Some G \<Longrightarrow>
   \<exists>m'. addDeviceToGroup now d g m = Inr m'"
  by (simp add: addDeviceToGroup_def Let_def)

lemma living_room_groups:
  "groups living_room_registry =
     [\<lparr>g_id = ''device_1000_a'', g_name = ''Living Room'', g_description = [], g_devices = [],
       g_parentGroup = None, g_subGroups = [''device_2000_b''], g_level = 0,
       g_createdAt = 1000, g_updatedAt = 2000\<rparr>,
      \<lparr>g_id = ''device_2000_b'', g_name = ''Lamp'', g_description = [], g_devices = [''lamp-1''],
       g_parentGroup = Some ''device_1000_a'', g_subGroups = [], g_level = 1,
       g_createdAt = 2000, g_updatedAt = 3000\<rparr>]"
  by (simp add: living_room_registry_def new_DeviceManager_def saveGroups_def saveDevices_def)

lemma living_room_devices:
  "devices living_room_registry =
     [example_device\<lparr>d_group := Some ''device_2000_b'', d_updatedAt := 3000\<rparr>]"
  by (simp add: living_room_registry_def new_DeviceManager_def saveGroups_def saveDevices_def)

text \<open>\<^verbatim>\<open>removeDeviceFromGroup\<close>, when it returns \<^verbatim>\<open>true\<close>, has cleared the reference of the device.\<close>

lemma removeDeviceFromGroup_clears:
  assumes "removeDeviceFromGroup now d m = (True, m')"
  shows "\<exists>dv. getDeviceById d m' = Some dv \<and> d_group dv = None"
  using assms
  by (auto simp: removeDeviceFromGroup_def getDeviceById_def Let_def saveGroups_def
      saveDevices_def find_update_first_same split: option.splits if_splits)

lemma update_first_distinct:
  "distinct (map key xs) \<Longrightarrow>
   update_first (\<lambda>x. key x = k) f xs = map (\<lambda>x. if key x = k then f x else x) xs"
proof (induction xs)
  case Nil
  then show ?case by simp
next
  case (Cons x xs)
  show ?case
  proof (cases "key x = k")
    case True
    from Cons.prems have "key x \<notin> key ` set xs" by simp
    with True have "\<forall>y \<in> set xs. key y \<noteq> k" by blast
    then have "map (\<lambda>x. if key x = k then f x else x) xs = xs"
      by (induction xs) auto
    with True show ?thesis by simp
  next
    case False
    with Cons show ?thesis by simp
  qed
qed

lemma map_g_id_update_first:
  "(\<And>x. g_id (f x) = g_id x) \<Longrightarrow> map g_id (update_first P f xs) = map g_id xs"
  by (induction xs) auto

lemma addDeviceToGroup_ids:
  assumes "addDeviceToGroup now d g m = Inr m'"
  shows "map g_id (groups m') = map g_id (groups m)"
  using assms
  by (elim addDeviceToGroup_Inr) (simp add: map_g_id_update_first)

lemma listed_in_iff:
  "k \<in> listed_in d m \<longleftrightarrow> (\<exists>G \<in> set (groups m). g_id G = k \<and> d \<in> set (g_devices G))"
  by (auto simp: listed_in_def)

lemma addDeviceToGroup_only_member:
  assumes ok: "addDeviceToGroup now d g m = Inr m'"
    and dist: "distinct (map g_id (groups m))"
    and ids: "[] \<notin> set (map g_id (groups m))"
    and dev: "getDeviceById d m = Some dv"
    and one: "listed_in d m \<subseteq> (case d_group dv of None \<Rightarrow> {} | Some k \<Rightarrow> {k})"
  shows "listed_in d m' = {g}"
proof (rule addDeviceToGroup_Inr [OF ok])
  fix dv' grp
  assume dv': "getDeviceById d m = Some dv'" and grp: "getGroupById g m = Some grp"
    and gs: "groups m' =
       update_first (\<lambda>x. g_id x = g) (\<lambda>x. x\<lparr>g_updatedAt := now 0\<rparr>)
         (update_first (\<lambda>x. g_id x = g)
            (\<lambda>x. if d \<in> set (g_devices x) then x else x\<lparr>g_devices := g_devices x @ [d]\<rparr>)
            (if truthy (d_group dv')
             then update_first (\<lambda>x. Some (g_id x) = d_group dv')
                    (\<lambda>x. x\<lparr>g_devices := filter (\<lambda>i. i \<noteq> d) (g_devices x)\<rparr>) (groups m)
             else groups m))"
  from dev dv' have [simp]: "dv' = dv" by simp
  define gs1 where "gs1 = (if truthy (d_group dv)
             then update_first (\<lambda>x. Some (g_id x) = d_group dv)
                    (\<lambda>x. x\<lparr>g_devices := filter (\<lambda>i. i \<noteq> d) (g_devices x)\<rparr>) (groups m)
             else groups m)"
  have ids1: "map g_id gs1 = map g_id (groups m)"
    by (simp add: gs1_def map_g_id_update_first)
  have none1: "\<forall>G \<in> set gs1. d \<notin> set (g_devices G)"
  proof (cases "d_group dv")
    case None
    with one have "listed_in d m = {}" by auto
    then have "\<forall>G \<in> set (groups m). d \<notin> set (g_devices G)"
      using listed_in_iff [of _ d m] by blast
    then show ?thesis using None by (simp add: gs1_def truthy_def)
  next
    case (Some k)
    show ?thesis
    proof (cases "k = []")
      case True
      have "listed_in d m \<subseteq> {[]}" using one Some True by auto
      moreover have "[] \<notin> listed_in d m" using ids by (force simp: listed_in_iff)
      ultimately have "listed_in d m = {}" by auto
      then have "\<forall>G \<in> set (groups m). d \<notin> set (g_devices G)"
        using listed_in_iff [of _ d m] by blast
      then show ?thesis using Some True by (simp add: gs1_def truthy_def)
    next
      case False
      have e: "(\<lambda>x. Some (g_id x) = d_group dv) = (\<lambda>x. g_id x = k)"
        using Some by auto
      have "gs1 = map (\<lambda>x. if g_id x = k
                 then x\<lparr>g_devices := filter (\<lambda>i. i \<noteq> d) (g_devices x)\<rparr> else x) (groups m)"
        using False Some dist by (simp add: gs1_def truthy_def e update_first_distinct)
      moreover have "\<forall>G \<in> set (groups m). d \<in> set (g_devices G) \<longrightarrow> g_id G = k"
        using one Some listed_in_iff [of _ d m] by auto
      ultimately show ?thesis by auto
    qed
  qed
  have dist1: "distinct (map g_id gs1)" using dist ids1 by simp
  have "grp \<in> set (groups m) \<and> g_id grp = g"
    using grp by (auto simp: getGroupById_def find_Some_iff)
  then have "g \<in> set (map g_id (groups m))" by force
  then have gin: "g \<in> set (map g_id gs1)" by (simp only: ids1)
  let ?add = "\<lambda>x. if d \<in> set (g_devices x) then x else x\<lparr>g_devices := g_devices x @ [d]\<rparr>"
  let ?gs2 = "update_first (\<lambda>x. g_id x = g) ?add gs1"
  have gs2: "?gs2 = map (\<lambda>x. if g_id x = g then ?add x else x) gs1"
    by (rule update_first_distinct [OF dist1])
  have dist2: "distinct (map g_id ?gs2)"
    using dist1 by (simp add: map_g_id_update_first)
  have "groups m' = update_first (\<lambda>x. g_id x = g) (\<lambda>x. x\<lparr>g_updatedAt := now 0\<rparr>) ?gs2"
    by (simp only: gs gs1_def \<open>dv' = dv\<close>)
  also have "\<dots> = map (\<lambda>x. if g_id x = g then x\<lparr>g_updatedAt := now 0\<rparr> else x) ?gs2"
    by (rule update_first_distinct [OF dist2])
  finally have gs': "groups m' =
      map (\<lambda>x. if g_id x = g then x\<lparr>g_updatedAt := now 0\<rparr> else x) ?gs2" .
  let ?h = "\<lambda>x. if g_id x = g then (?add x)\<lparr>g_updatedAt := now 0\<rparr> else x"
  have gsh: "groups m' = map ?h gs1"
    unfolding gs' gs2 by (simp add: comp_def cong: if_cong)
  from gin obtain x where x: "x \<in> set gs1" "g_id x = g" by auto
  show "listed_in d m' = {g}"
  proof (rule set_eqI)
    fix k
    show "k \<in> listed_in d m' \<longleftrightarrow> k \<in> {g}"
    proof
      assume "k \<in> listed_in d m'"
      then obtain y where y: "y \<in> set gs1" "g_id (?h y) = k" "d \<in> set (g_devices (?h y))"
        unfolding listed_in_iff gsh by auto
      show "k \<in> {g}"
      proof (cases "g_id y = g")
        case True
        with y(2) show ?thesis by (simp split: if_splits)
      next
        case False
        with y(3) none1 y(1) show ?thesis by simp
      qed
    next
      assume "k \<in> {g}"
      then have k: "k = g" by simp
      have "?h x \<in> set (groups m')" using x(1) unfolding gsh by (rule imageI [of x "set gs1" ?h, unfolded set_map [symmetric]])
      moreover have "g_id (?h x) = g" "d \<in> set (g_devices (?h x))" using x(2) by simp_all
      ultimately show "k \<in> listed_in d m'"
        unfolding listed_in_iff k by blast
    qed
  qed
qed


lemma single_membership_addDeviceToGroup:
  assumes ok: "addDeviceToGroup now d g m = Inr m'" and inv: "single_membership d m"
  shows "listed_in d m' = {g}" and "single_membership d m'"
proof -
  from ok obtain dv where dv: "getDeviceById d m = Some dv"
    by (elim addDeviceToGroup_Inr)
  from inv dv have dist: "distinct (map g_id (groups m))" and ids: "[] \<notin> set (map g_id (groups m))"
    and one: "listed_in d m \<subseteq> (case d_group dv of None \<Rightarrow> {} | Some k \<Rightarrow> {k})"
    by (simp_all add: single_membership_def)
  show l: "listed_in d m' = {g}"
    by (rule addDeviceToGroup_only_member [OF ok dist ids dv one])
  from addDeviceToGroup_device [OF ok] obtain dv' where
    dv': "getDeviceById d m' = Some dv'" "d_group dv' = Some g" by auto
  show "single_membership d m'"
    using dist ids by (simp add: single_membership_def addDeviceToGroup_ids [OF ok] l dv')
qed

text \<open>
  Claim C7, as the code has it. A device is moved from one group to another: when
  \<^verbatim>\<open>addDeviceToGroup(d, g1)\<close> and then \<^verbatim>\<open>addDeviceToGroup(d, g2)\<close> have both returned (neither
  threw), with two different groups and \<open>g1\<close> an id that JavaScript takes as true (not the
  empty string), the device's group reference is \<open>g2\<close>, the member list of \<open>g2\<close> contains the
  device and the member list of \<open>g1\<close> does not. When the membership of the device was single
  before the two calls (group ids distinct and not empty, the device listed in no group but
  the one its \<^verbatim>\<open>group\<close> field names), \<open>g2\<close> is then the only group that lists it.
\<close>

theorem C7_single_group_membership:
  assumes "addDeviceToGroup now1 d g1 m = Inr m1"
    and "addDeviceToGroup now2 d g2 m1 = Inr m2"
    and "g1 \<noteq> g2" and "g1 \<noteq> []"
  shows "(\<exists>dev. getDeviceById d m2 = Some dev \<and> d_group dev = Some g2) \<and>
         (\<exists>G2. getGroupById g2 m2 = Some G2 \<and> d \<in> set (g_devices G2)) \<and>
         (\<exists>G1. getGroupById g1 m2 = Some G1 \<and> d \<notin> set (g_devices G1)) \<and>
         (single_membership d m \<longrightarrow> listed_in d m2 = {g2})"
proof -
  from addDeviceToGroup_device [OF assms(1)] obtain dev1 where
    dev1: "getDeviceById d m1 = Some dev1" "d_group dev1 = Some g1" by auto
  from addDeviceToGroup_member [OF assms(1)] obtain G where
    G: "getGroupById g1 m1 = Some G" by auto
  have only: "listed_in d m2 = {g2}" if "single_membership d m"
    by (rule single_membership_addDeviceToGroup(1) [OF assms(2)
          single_membership_addDeviceToGroup(2) [OF assms(1) that]])
  show ?thesis
    using addDeviceToGroup_device [OF assms(2)] addDeviceToGroup_member [OF assms(2)]
      addDeviceToGroup_leaves_old [OF assms(2) dev1 assms(4,3) G] only
    by simp
qed

theorem C7_witness:
  "\<exists>m1 m2.
     addDeviceToGroup (\<lambda>_. 4000) ''lamp-1'' ''device_1000_a'' living_room_registry = Inr m1 \<and>
     addDeviceToGroup (\<lambda>_. 5000) ''lamp-1'' ''device_2000_b'' m1 = Inr m2 \<and>
     ''device_1000_a'' \<noteq> ''device_2000_b'' \<and> ''device_1000_a'' \<noteq> [] \<and>
     single_membership ''lamp-1'' living_room_registry \<and>
     (\<exists>dev. getDeviceById ''lamp-1'' m2 = Some dev \<and> d_group dev = Some ''device_2000_b'') \<and>
     (\<exists>G2. getGroupById ''device_2000_b'' m2 = Some G2 \<and> ''lamp-1'' \<in> set (g_devices G2)) \<and>
     (\<exists>G1. getGroupById ''device_1000_a'' m2 = Some G1 \<and> ''lamp-1'' \<notin> set (g_devices G1)) \<and>
     listed_in ''lamp-1'' m2 = {''device_2000_b''}"
proof -
  have d0: "getDeviceById ''lamp-1'' living_room_registry \<noteq> None"
    by (simp add: getDeviceById_def living_room_devices example_device_def)
  have a0: "getGroupById ''device_1000_a'' living_room_registry \<noteq> None"
    by (simp add: getGroupById_def living_room_groups)
  have b0: "getGroupById ''device_2000_b'' living_room_registry \<noteq> None"
    by (simp add: getGroupById_def living_room_groups)
  have sm: "single_membership ''lamp-1'' living_room_registry"
    by (simp add: single_membership_def listed_in_def getDeviceById_def living_room_groups
        living_room_devices example_device_def)
  from d0 a0 obtain m1 where
    1: "addDeviceToGroup (\<lambda>_. 4000) ''lamp-1'' ''device_1000_a'' living_room_registry = Inr m1"
    using addDeviceToGroup_succeeds by blast
  from addDeviceToGroup_device [OF 1] have d1: "getDeviceById ''lamp-1'' m1 \<noteq> None" by auto
  from b0 addDeviceToGroup_keeps_groups [OF 1, of "''device_2000_b''"]
  have b1: "getGroupById ''device_2000_b'' m1 \<noteq> None" by simp
  from d1 b1 obtain m2 where
    2: "addDeviceToGroup (\<lambda>_. 5000) ''lamp-1'' ''device_2000_b'' m1 = Inr m2"
    using addDeviceToGroup_succeeds by blast
  have ne: "''device_1000_a'' \<noteq> ''device_2000_b''" "''device_1000_a'' \<noteq> []" by simp_all
  note c = C7_single_group_membership [OF 1 2 ne]
  from c sm have only: "listed_in ''lamp-1'' m2 = {''device_2000_b''}" by simp
  show ?thesis
    by (rule exI [of _ m1], rule exI [of _ m2], intro conjI)
       (use 1 2 ne sm c only in \<open>simp_all only: simp_thms\<close>)
qed

text \<open>
  Claim C7 as it is worded, for every registry state, does not hold. In a registry whose
  first group has the empty string as its id, the device's reference to that group is
  falsy, so the second call looks for no old group: after the two calls both groups list
  the device. And in a registry where a group lists the device while the device's record
  names no group, which \<^verbatim>\<open>deleteDevice\<close> followed by a new scan leaves behind, that group
  still lists the device after it was moved to \<open>g1\<close> and then to \<open>g2\<close>: the device is in two
  groups.
\<close>

theorem C7_counterexample:
  "\<not> isl (addDeviceToGroup_twice example_clock example_clock ''lamp-1'' [] ''device_2000_b''
            empty_id_registry) \<and>
   map g_id (groups (projr (addDeviceToGroup_twice example_clock example_clock ''lamp-1'' []
     ''device_2000_b'' empty_id_registry))) = [[], ''device_2000_b''] \<and>
   map g_devices (groups (projr (addDeviceToGroup_twice example_clock example_clock ''lamp-1'' []
     ''device_2000_b'' empty_id_registry))) = [[''lamp-1''], [''lamp-1'']] \<and>
   \<not> isl (addDeviceToGroup_twice example_clock example_clock ''lamp-1'' ''device_1000_a''
            ''device_2000_b'' stale_member_registry) \<and>
   map g_id (groups (projr (addDeviceToGroup_twice example_clock example_clock ''lamp-1''
     ''device_1000_a'' ''device_2000_b'' stale_member_registry))) =
     [''device_3000_c'', ''device_1000_a'', ''device_2000_b''] \<and>
   map g_devices (groups (projr (addDeviceToGroup_twice example_clock example_clock ''lamp-1''
     ''device_1000_a'' ''device_2000_b'' stale_member_registry))) = [[''lamp-1''], [], [''lamp-1'']]"
  by (simp add: addDeviceToGroup_twice_def addDeviceToGroup_def empty_id_registry_def
      stale_member_registry_def new_DeviceManager_def example_device_def example_group_def
      example_clock_def getDeviceById_def getGroupById_def truthy_def Let_def saveGroups_def
      saveDevices_def)

subsection \<open>Deleting a group\<close>


lemma findIndex_Some:
  "findIndex P xs = Some i \<Longrightarrow> i < length xs \<and> P (xs ! i) \<and> (\<forall>j<i. \<not> P (xs ! j))"
proof (induction xs arbitrary: i)
  case Nil
  then show ?case by simp
next
  case (Cons x xs)
  show ?case
  proof (cases "P x")
    case True
    with Cons.prems show ?thesis by simp
  next
    case False
    with Cons.prems obtain k where k: "findIndex P xs = Some k" "i = Suc k"
      by (auto split: option.splits)
    from Cons.IH [OF k(1)] False k(2) show ?thesis
      by (auto simp: nth_Cons split: nat.splits)
  qed
qed

lemma findIndex_None: "(findIndex P xs = None) = (find P xs = None)"
  by (induction xs) (auto split: option.splits)

lemma find_remove_other:
  "findIndex P xs = Some i \<Longrightarrow> (\<And>x. Q x \<Longrightarrow> \<not> P x) \<Longrightarrow>
   find Q (take i xs @ drop (Suc i) xs) = find Q xs"
proof (induction xs arbitrary: i)
  case Nil
  then show ?case by simp
next
  case (Cons x xs)
  show ?case
  proof (cases "P x")
    case True
    with Cons.prems have "i = 0" by simp
    with True Cons.prems(2) [of x] show ?thesis by auto
  next
    case False
    with Cons.prems(1) obtain k where k: "findIndex P xs = Some k" "i = Suc k"
      by (auto split: option.splits)
    from Cons.IH [OF k(1) Cons.prems(2)] k(2) show ?thesis by simp
  qed
qed

lemma set_remove_other:
  "findIndex P xs = Some i \<Longrightarrow> x \<in> set xs \<Longrightarrow> \<not> P x \<Longrightarrow> x \<in> set (take i xs @ drop (Suc i) xs)"
proof -
  assume a: "findIndex P xs = Some i" "x \<in> set xs" "\<not> P x"
  from findIndex_Some [OF a(1)] have i: "i < length xs" "P (xs ! i)" by auto
  from a(2) obtain j where j: "j < length xs" "xs ! j = x" by (auto simp: in_set_conv_nth)
  with i a(3) have ne: "j \<noteq> i" by auto
  have "xs = take i xs @ xs ! i # drop (Suc i) xs"
    using i(1) by (simp add: id_take_nth_drop)
  then have "set xs = set (take i xs) \<union> {xs ! i} \<union> set (drop (Suc i) xs)"
    using set_append [of "take i xs" "xs ! i # drop (Suc i) xs"] by simp
  with a(2) a(3) i(2) show ?thesis by auto
qed

lemma filter_remove_first:
  "findIndex P xs = Some i \<Longrightarrow> filter (\<lambda>x. \<not> P x) (take i xs @ drop (Suc i) xs) = filter (\<lambda>x. \<not> P x) xs"
proof (induction xs arbitrary: i)
  case Nil
  then show ?case by simp
next
  case (Cons x xs)
  show ?case
  proof (cases "P x")
    case True
    with Cons.prems show ?thesis by simp
  next
    case False
    with Cons.prems(1) obtain k where k: "findIndex P xs = Some k" "i = Suc k"
      by (auto split: option.splits)
    from Cons.IH [OF k(1)] k(2) False show ?thesis by simp
  qed
qed

lemma find_remove_distinct:
  "findIndex (\<lambda>x. f x = a) xs = Some i \<Longrightarrow> distinct (map f xs) \<Longrightarrow>
   find (\<lambda>x. f x = a) (take i xs @ drop (Suc i) xs) = None"
proof -
  assume a: "findIndex (\<lambda>x. f x = a) xs = Some i" and d: "distinct (map f xs)"
  from findIndex_Some [OF a] have i: "i < length xs" "f (xs ! i) = a" by auto
  have xs: "xs = take i xs @ xs ! i # drop (Suc i) xs"
    using i(1) by (simp add: id_take_nth_drop)
  have "distinct (map f (take i xs @ xs ! i # drop (Suc i) xs))"
    using d xs by simp
  then have "a \<notin> f ` set (take i xs @ drop (Suc i) xs)"
    using i(2) by auto
  then show ?thesis
    by (auto simp: find_None_iff)
qed

lemma deleteGroup_Inr:
  assumes "deleteGroup gid m = Inr m'"
  obtains i where "findIndex (\<lambda>g. g_id g = gid) (groups m) = Some i"
    "groups m' = take i (groups m) @ drop (Suc i) (groups m)"
    "devices m' = map (\<lambda>dv. if d_group dv = Some gid then dv\<lparr>d_group := None\<rparr> else dv) (devices m)"
  using assms
  by (auto simp: deleteGroup_def Let_def saveGroups_def saveDevices_def split: option.splits)

lemma deleteGroup_succeeds:
  "getGroupById g m = Some G \<Longrightarrow> \<exists>m'. deleteGroup g m = Inr m'"
  using findIndex_None [of "\<lambda>x. g_id x = g" "groups m"]
  by (auto simp: deleteGroup_def getGroupById_def Let_def split: option.splits)

text \<open>
  Claim C10. When \<^verbatim>\<open>deleteGroup(g)\<close> returns, one group has left the list (the first with that
  id; with distinct ids no group of that id is left) and no device refers to \<open>g\<close> any more,
  the devices being otherwise as they were. Every other group is exactly as it was, in the
  same order: a group \<open>p\<close> whose \<^verbatim>\<open>subGroups\<close> holds the id of \<open>g\<close> is still in the list with that
  entry, and a group whose \<^verbatim>\<open>parentGroup\<close> is \<open>g\<close> still has it.
\<close>

theorem C10_deleteGroup_frame:
  assumes "deleteGroup gid m = Inr m'"
  shows "length (groups m') + 1 = length (groups m) \<and>
         devices m' = map (\<lambda>dv. if d_group dv = Some gid
                                      then dv\<lparr>d_group := None\<rparr> else dv) (devices m) \<and>
         (distinct (map g_id (groups m)) \<longrightarrow> getGroupById gid m' = None) \<and>
         (\<forall>dev \<in> set (devices m'). d_group dev \<noteq> Some gid) \<and>
         (\<forall>k. k \<noteq> gid \<longrightarrow> getGroupById k m' = getGroupById k m) \<and>
         filter (\<lambda>g. g_id g \<noteq> gid) (groups m') = filter (\<lambda>g. g_id g \<noteq> gid) (groups m) \<and>
         (\<forall>p \<in> set (groups m). g_id p \<noteq> gid \<and> gid \<in> set (g_subGroups p) \<longrightarrow> p \<in> set (groups m')) \<and>
         (\<forall>c \<in> set (groups m). g_id c \<noteq> gid \<and> g_parentGroup c = Some gid \<longrightarrow> c \<in> set (groups m'))"
proof (rule deleteGroup_Inr [OF assms])
  fix i
  assume i: "findIndex (\<lambda>g. g_id g = gid) (groups m) = Some i"
    and gs: "groups m' = take i (groups m) @ drop (Suc i) (groups m)"
    and ds: "devices m' = map (\<lambda>dv. if d_group dv = Some gid then dv\<lparr>d_group := None\<rparr> else dv) (devices m)"
  from findIndex_Some [OF i] have il: "i < length (groups m)" by simp
  have 1: "length (groups m') + 1 = length (groups m)"
    using il by (simp add: gs)
  have 2: "distinct (map g_id (groups m)) \<longrightarrow> getGroupById gid m' = None"
    by (simp add: getGroupById_def gs find_remove_distinct [OF i])
  have 3: "\<forall>dev \<in> set (devices m'). d_group dev \<noteq> Some gid"
    by (auto simp: ds)
  have 4: "\<forall>k. k \<noteq> gid \<longrightarrow> getGroupById k m' = getGroupById k m"
  proof (intro allI impI)
    fix k :: string
    assume k: "k \<noteq> gid"
    have "find (\<lambda>g. g_id g = k) (take i (groups m) @ drop (Suc i) (groups m)) =
          find (\<lambda>g. g_id g = k) (groups m)"
      by (rule find_remove_other [OF i]) (use k in simp)
    then show "getGroupById k m' = getGroupById k m"
      by (simp add: getGroupById_def gs)
  qed
  have 5: "filter (\<lambda>g. g_id g \<noteq> gid) (groups m') = filter (\<lambda>g. g_id g \<noteq> gid) (groups m)"
    unfolding gs by (rule filter_remove_first [OF i])
  have 6: "\<And>p. p \<in> set (groups m) \<Longrightarrow> g_id p \<noteq> gid \<Longrightarrow> p \<in> set (groups m')"
    unfolding gs by (rule set_remove_other [OF i])
  show ?thesis
  proof (intro conjI ballI impI)
    show "length (groups m') + 1 = length (groups m)" by (rule 1)
    show "devices m' = map (\<lambda>dv. if d_group dv = Some gid
                                      then dv\<lparr>d_group := None\<rparr> else dv) (devices m)"
      by (rule ds)
    show "getGroupById gid m' = None" if "distinct (map g_id (groups m))"
      using 2 that by simp
    show "d_group dev \<noteq> Some gid" if "dev \<in> set (devices m')" for dev
      using 3 that by simp
    show "\<forall>k. k \<noteq> gid \<longrightarrow> getGroupById k m' = getGroupById k m" by (rule 4)
    show "filter (\<lambda>g. g_id g \<noteq> gid) (groups m') = filter (\<lambda>g. g_id g \<noteq> gid) (groups m)"
      by (rule 5)
    show "p \<in> set (groups m')"
      if "p \<in> set (groups m)" "g_id p \<noteq> gid \<and> gid \<in> set (g_subGroups p)" for p
      using 6 that by simp
    show "c \<in> set (groups m')"
      if "c \<in> set (groups m)" "g_id c \<noteq> gid \<and> g_parentGroup c = Some gid" for c
      using 6 that by simp
  qed
qed

theorem C10_witness:
  "\<exists>m' p m'' c.
     deleteGroup ''device_2000_b'' living_room_registry = Inr m' \<and>
     p \<in> set (groups living_room_registry) \<and> g_id p = ''device_1000_a'' \<and>
     ''device_2000_b'' \<in> set (g_subGroups p) \<and>
     p \<in> set (groups m') \<and> getGroupById ''device_2000_b'' m' = None \<and>
     length (groups m') = 1 \<and> map d_group (devices m') = [None] \<and>
     deleteGroup ''device_1000_a'' living_room_registry = Inr m'' \<and>
     c \<in> set (groups living_room_registry) \<and> g_id c = ''device_2000_b'' \<and>
     g_parentGroup c = Some ''device_1000_a'' \<and>
     c \<in> set (groups m'') \<and> getGroupById ''device_1000_a'' m'' = None"
proof -
  define p where "p = groups living_room_registry ! 0"
  define c where "c = groups living_room_registry ! 1"
  have b0: "\<exists>G. getGroupById ''device_2000_b'' living_room_registry = Some G"
    by (simp add: getGroupById_def living_room_groups)
  then obtain m' where 1: "deleteGroup ''device_2000_b'' living_room_registry = Inr m'"
    using deleteGroup_succeeds by blast
  have a0: "\<exists>G. getGroupById ''device_1000_a'' living_room_registry = Some G"
    by (simp add: getGroupById_def living_room_groups)
  then obtain m'' where 2: "deleteGroup ''device_1000_a'' living_room_registry = Inr m''"
    using deleteGroup_succeeds by blast
  have p: "p \<in> set (groups living_room_registry)" "g_id p = ''device_1000_a''"
       "''device_2000_b'' \<in> set (g_subGroups p)"
    by (simp_all add: p_def living_room_groups)
  have pn: "g_id p \<noteq> ''device_2000_b''" by (simp add: p_def living_room_groups)
  have c: "c \<in> set (groups living_room_registry)" "g_id c = ''device_2000_b''"
       "g_parentGroup c = Some ''device_1000_a''"
    by (simp_all add: c_def living_room_groups)
  have cn: "g_id c \<noteq> ''device_1000_a''" by (simp add: c_def living_room_groups)
  have dist: "distinct (map g_id (groups living_room_registry))"
    by (simp add: living_room_groups)
  note d1 = C10_deleteGroup_frame [OF 1]
  note d2 = C10_deleteGroup_frame [OF 2]
  have p': "p \<in> set (groups m')" using d1 p pn by simp
  have gone1: "getGroupById ''device_2000_b'' m' = None" using d1 dist by simp
  have len: "length (groups m') = 1" using d1 by (simp add: living_room_groups)
  have cleared: "map d_group (devices m') = [None]"
    using d1 by (simp add: living_room_devices)
  have c': "c \<in> set (groups m'')" using d2 c cn by simp
  have gone2: "getGroupById ''device_1000_a'' m'' = None" using d2 dist by simp
  show ?thesis
    by (rule exI [of _ m'], rule exI [of _ p], rule exI [of _ m''], rule exI [of _ c], intro conjI)
       (use 1 2 p c p' gone1 len cleared c' gone2 in \<open>simp_all only: simp_thms\<close>)
qed

section \<open>Properties of the BLE controller\<close>

subsection \<open>Colour frames\<close>

lemma validate_spec_clamp: "validate t v = Fin (spec_clamp (parseInt t v))"
  by (cases "parseInt t v")
     (auto simp: validate_def spec_clamp_def clamp_def js_or_def Math_min_def Math_max_def)

lemma clamp_range: "0 \<le> clamp n \<and> clamp n \<le> 255"
  by (simp add: clamp_def)

lemma spec_clamp_range: "0 \<le> spec_clamp x \<and> spec_clamp x \<le> 255"
  by (cases x) (auto simp: spec_clamp_def clamp_def)

lemma COMMANDS_keys:
  "COMMANDS ''ELK_BLEDOM'' = Some COMMANDS_ELK_BLEDOM"
  "COMMANDS ''GENERIC'' = Some COMMANDS_GENERIC"
  by (simp_all add: COMMANDS_def)

lemma ToUint8_byte: "0 \<le> x \<Longrightarrow> x \<le> 255 \<Longrightarrow> ToUint8 (Fin x) = x"
  by (simp add: ToUint8_def)

lemma channel_spec_clamp: "channel t v = spec_clamp (parseInt t v)"
  using spec_clamp_range [of "parseInt t v"]
  by (simp add: channel_def validate_spec_clamp ToUint8_byte)

lemma channel_range: "0 \<le> channel t v \<and> channel t v \<le> 255"
  by (simp add: channel_spec_clamp spec_clamp_range)

lemma validate_channel: "validate t v = Fin (channel t v)"
  by (simp add: validate_spec_clamp channel_spec_clamp)

lemma spec_clamp_toNumber: "spec_clamp (toNumber v) = clamp v"
  by (simp add: spec_clamp_def toNumber_def clamp_def)

lemma spec_clamp_parseInt_string:
  "spec_clamp (parseInt_string s) = (case leadingInteger s of None \<Rightarrow> 0 | Some n \<Rightarrow> clamp n)"
  by (simp add: parseInt_string_def spec_clamp_toNumber split: option.split)
     (simp add: spec_clamp_def)

lemma no_digits:
  "leadingInteger (utf16 ''undefined'') = None"
  "leadingInteger (utf16 ''null'') = None"
  "leadingInteger (utf16 ''true'') = None"
  "leadingInteger (utf16 ''false'') = None"
  "leadingInteger (utf16 ''NaN'') = None"
  "leadingInteger (utf16 ''Infinity'') = None"
  "leadingInteger (utf16 ''-Infinity'') = None"
  by (simp_all add: leadingInteger_def utf16_def isStrWhiteSpaceChar_def digitValue_def
      isRadixDigit_def Let_def)

lemma decimalNotation_integer: "decimalNotation (of_int n) = (\<bar>n\<bar> < 10 ^ 21)"
proof -
  have 1: "(\<bar>(of_int n :: rat)\<bar> < 10 ^ 21) = (\<bar>n\<bar> < 10 ^ 21)"
  proof -
    have "(of_int \<bar>n\<bar> < (of_int (10 ^ 21) :: rat)) = (\<bar>n\<bar> < 10 ^ 21)"
      by (simp only: of_int_less_iff)
    then show ?thesis by simp
  qed
  have 2: "(1 :: rat) / 10 ^ 6 \<le> \<bar>of_int n\<bar>" if "n \<noteq> 0"
  proof -
    from that have "1 \<le> \<bar>n\<bar>" by simp
    then have "(of_int 1 :: rat) \<le> of_int \<bar>n\<bar>" by (simp only: of_int_le_iff)
    then show ?thesis by simp
  qed
  show ?thesis
    using 1 2 by (cases "n = 0") (simp_all add: decimalNotation_def)
qed

lemma channel_integer:
  "channel t (JNumber (Fin n)) =
     (if \<bar>n\<bar> < 10 ^ 21 then clamp n else channel t (JString (t (of_int n))))"
  by (simp add: channel_spec_clamp parseInt_def decimalNotation_integer spec_clamp_def)

lemma channel_fraction:
  "channel t (JFraction x) =
     (if decimalNotation x then clamp (truncate x) else channel t (JString (t x)))"
  by (simp add: channel_spec_clamp parseInt_def spec_clamp_def)

lemma channel_string:
  "channel t (JString s) = (case leadingInteger s of None \<Rightarrow> 0 | Some n \<Rightarrow> clamp n)"
  by (simp add: channel_spec_clamp parseInt_def spec_clamp_parseInt_string)

lemma channel_no_number:
  "channel t JUndefined = 0" "channel t JNull = 0" "channel t (JBoolean b) = 0"
  "channel t (JNumber NaN) = 0" "channel t (JNumber PosInf) = 0" "channel t (JNumber NegInf) = 0"
  by (simp_all add: channel_spec_clamp parseInt_def spec_clamp_parseInt_string no_digits)

text \<open>
  Claim C4, as the code has it. For every input \<open>r\<close>, \<open>g\<close>, \<open>b\<close>, with either protocol active,
  \<^verbatim>\<open>setColorRGB\<close> hands \<^verbatim>\<open>sendCommand\<close> a frame of the profile's fixed length (9 for ELK_BLEDOM,
  10 for GENERIC) whose channel bytes, at positions 4 to 6, are integers in 0..255. The byte
  is what \<^verbatim>\<open>parseInt\<close> reads from the input, clamped to 0..255: a finite number of magnitude
  below \<open>10 ^ 21\<close>, and at least \<open>1 / 10 ^ 6\<close> when it has a fraction, counts without its
  fraction; a string counts by the integer it starts with (after white space, with a sign
  or \<^verbatim>\<open>0x\<close>), and as 0 when it starts with none; a finite number of any other magnitude
  counts as the text does that the platform prints for it; \<^verbatim>\<open>NaN\<close>, both infinities,
  \<^verbatim>\<open>undefined\<close>, \<^verbatim>\<open>null\<close> and the booleans give 0.
\<close>

theorem C4_color_channels:
  assumes "proto = ''ELK_BLEDOM'' \<or> proto = ''GENERIC''"
  shows "(\<exists>frame.
       colorCommand t (Some proto) r g b = Some frame \<and>
       setColorRGB t p r g b (s\<lparr>protocol := Some proto\<rparr>) =
         Inr (sendCommand p frame 3 (s\<lparr>protocol := Some proto\<rparr>)) \<and>
       length frame = (if proto = ''ELK_BLEDOM'' then 9 else 10) \<and>
       frame ! 4 = Fin (channel t r) \<and> frame ! 5 = Fin (channel t g) \<and>
       frame ! 6 = Fin (channel t b) \<and>
       Uint8Array frame ! 4 = channel t r \<and> Uint8Array frame ! 5 = channel t g \<and>
       Uint8Array frame ! 6 = channel t b) \<and>
     (\<forall>v. 0 \<le> channel t v \<and> channel t v \<le> 255) \<and>
     (\<forall>n. channel t (JNumber (Fin n)) =
        (if \<bar>n\<bar> < 10 ^ 21 then clamp n else channel t (JString (t (of_int n))))) \<and>
     (\<forall>x. channel t (JFraction x) =
        (if decimalNotation x then clamp (truncate x) else channel t (JString (t x)))) \<and>
     (\<forall>str. channel t (JString str) =
        (case leadingInteger str of None \<Rightarrow> 0 | Some n \<Rightarrow> clamp n)) \<and>
     channel t (JNumber NaN) = 0 \<and> channel t (JNumber PosInf) = 0 \<and>
     channel t (JNumber NegInf) = 0 \<and> channel t JUndefined = 0 \<and> channel t JNull = 0 \<and>
     (\<forall>c. channel t (JBoolean c) = 0)"
proof -
  let ?R = "channel t r" and ?G = "channel t g" and ?B = "channel t b"
  note rng = channel_range [of t r] channel_range [of t g] channel_range [of t b]
  have frame: "\<exists>frame.
       colorCommand t (Some proto) r g b = Some frame \<and>
       setColorRGB t p r g b (s\<lparr>protocol := Some proto\<rparr>) =
         Inr (sendCommand p frame 3 (s\<lparr>protocol := Some proto\<rparr>)) \<and>
       length frame = (if proto = ''ELK_BLEDOM'' then 9 else 10) \<and>
       frame ! 4 = Fin (channel t r) \<and> frame ! 5 = Fin (channel t g) \<and>
       frame ! 6 = Fin (channel t b) \<and>
       Uint8Array frame ! 4 = channel t r \<and> Uint8Array frame ! 5 = channel t g \<and>
       Uint8Array frame ! 6 = channel t b"
    using assms
  proof
    assume e: "proto = ''ELK_BLEDOM''"
    have c: "colorCommand t (Some ''ELK_BLEDOM'') r g b =
        Some [Fin 0x7e, Fin 0x07, Fin 0x05, Fin 0x03, Fin ?R, Fin ?G, Fin ?B, Fin 0x00, Fin 0xef]"
      by (simp add: colorCommand_def COMMANDS_keys COMMANDS_ELK_BLEDOM_def validate_channel)
    show ?thesis
      using rng
      by (rule_tac x = "[Fin 0x7e, Fin 0x07, Fin 0x05, Fin 0x03, Fin ?R, Fin ?G, Fin ?B, Fin 0x00, Fin 0xef]" in exI)
         (simp add: c setColorRGB_def e Uint8Array_def ToUint8_byte)
  next
    assume e: "proto = ''GENERIC''"
    let ?cs = "js_bitand (js_add (js_add (Fin ?R) (Fin ?G)) (Fin ?B)) (Fin 0xFF)"
    have c: "colorCommand t (Some ''GENERIC'') r g b =
        Some [Fin 0x7e, Fin 0x00, Fin 0x05, Fin 0x03, Fin ?R, Fin ?G, Fin ?B, Fin 0x00, ?cs, Fin 0xef]"
      by (simp add: colorCommand_def COMMANDS_keys COMMANDS_GENERIC_def validate_channel Let_def)
    show ?thesis
      using rng
      by (rule_tac x = "[Fin 0x7e, Fin 0x00, Fin 0x05, Fin 0x03, Fin ?R, Fin ?G, Fin ?B, Fin 0x00, ?cs, Fin 0xef]" in exI)
         (simp add: c setColorRGB_def e Uint8Array_def ToUint8_byte)
  qed
  show ?thesis
    by (intro conjI allI frame channel_range [THEN conjunct1] channel_range [THEN conjunct2]
        channel_integer channel_fraction channel_string channel_no_number)
qed

theorem C4_witness:
  "(''GENERIC'' = ''ELK_BLEDOM'' \<or> ''GENERIC'' = ''GENERIC'') \<and>
   colorCommand exponent_1e21 (Some ''GENERIC'') (JNumber (Fin 300)) (JString (utf16 ''-5''))
     (JFraction (7 / 2)) =
     Some [Fin 0x7e, Fin 0x00, Fin 0x05, Fin 0x03, Fin 255, Fin 0, Fin 3, Fin 0x00, Fin 2, Fin 0xef] \<and>
   channel exponent_1e21 (JNumber (Fin 300)) = 255 \<and>
   channel exponent_1e21 (JString (utf16 ''-5'')) = 0 \<and>
   channel exponent_1e21 (JFraction (7 / 2)) = 3"
proof -
  note c = C4_color_channels [of "''GENERIC''" exponent_1e21 "JNumber (Fin 300)"
      "JString (utf16 ''-5'')" "JFraction (7 / 2)" failing_platform connected_session]
  have li: "leadingInteger (utf16 ''-5'') = Some (- 5)"
    by (simp add: leadingInteger_def utf16_def isStrWhiteSpaceChar_def digitValue_def
        isRadixDigit_def mathInt_def Let_def)
  have tr: "truncate (7 / 2) = 3"
    by (simp add: truncate_def) linarith
  from c have "channel exponent_1e21 (JNumber (Fin 300)) =
      (if \<bar>300 :: int\<bar> < 10 ^ 21 then clamp 300
       else channel exponent_1e21 (JString (exponent_1e21 (of_int 300))))"
    by blast
  then have r: "channel exponent_1e21 (JNumber (Fin 300)) = 255"
    by (simp add: clamp_def)
  from c have "channel exponent_1e21 (JString (utf16 ''-5'')) =
      (case leadingInteger (utf16 ''-5'') of None \<Rightarrow> 0 | Some n \<Rightarrow> clamp n)"
    by blast
  then have g: "channel exponent_1e21 (JString (utf16 ''-5'')) = 0"
    by (simp add: li clamp_def)
  from c have "channel exponent_1e21 (JFraction (7 / 2)) =
      (if decimalNotation (7 / 2) then clamp (truncate (7 / 2))
       else channel exponent_1e21 (JString (exponent_1e21 (7 / 2))))"
    by blast
  then have b: "channel exponent_1e21 (JFraction (7 / 2)) = 3"
    by (simp add: tr clamp_def decimalNotation_def)
  from c obtain frame where f:
    "colorCommand exponent_1e21 (Some ''GENERIC'') (JNumber (Fin 300)) (JString (utf16 ''-5''))
       (JFraction (7 / 2)) = Some frame"
    by blast
  have "colorCommand exponent_1e21 (Some ''GENERIC'') (JNumber (Fin 300)) (JString (utf16 ''-5''))
       (JFraction (7 / 2)) =
     Some [Fin 0x7e, Fin 0x00, Fin 0x05, Fin 0x03, Fin 255, Fin 0, Fin 3, Fin 0x00, Fin 2, Fin 0xef]"
    by (simp add: colorCommand_def COMMANDS_keys COMMANDS_GENERIC_def validate_channel r g b
        Let_def js_bitand_def ToInt32_def)
  with r g b show ?thesis by simp
qed

text \<open>
  Claim C4 as it is worded does not hold: \<^verbatim>\<open>Infinity\<close> is above 255 and is not clamped to 255
  but gives 0; the string \<^verbatim>\<open>12abc\<close> is not a number and gives 12, not 0; the number \<open>10 ^ 21\<close>,
  which is printed as \<^verbatim>\<open>1e+21\<close>, gives 1, not 255.
\<close>

theorem C4_counterexample:
  "colorCommand exponent_1e21 (Some ''ELK_BLEDOM'') (JNumber PosInf) (JString (utf16 ''12abc''))
     (JNumber (Fin (10 ^ 21))) =
     Some [Fin 0x7e, Fin 0x07, Fin 0x05, Fin 0x03, Fin 0, Fin 12, Fin 1, Fin 0x00, Fin 0xef] \<and>
   channel exponent_1e21 (JNumber PosInf) = 0 \<and> spec_clamp PosInf = 255 \<and>
   channel exponent_1e21 (JString (utf16 ''12abc'')) = 12 \<and>
   channel exponent_1e21 (JNumber (Fin (10 ^ 21))) = 1 \<and> spec_clamp (Fin (10 ^ 21)) = 255"
proof -
  have li: "leadingInteger (utf16 ''12abc'') = Some 12" "leadingInteger (utf16 ''1e+21'') = Some 1"
    by (simp_all add: leadingInteger_def utf16_def isStrWhiteSpaceChar_def digitValue_def
        isRadixDigit_def mathInt_def Let_def)
  have r: "channel exponent_1e21 (JNumber PosInf) = 0" by (rule channel_no_number)
  have g: "channel exponent_1e21 (JString (utf16 ''12abc'')) = 12"
    by (simp add: channel_string li clamp_def)
  have b: "channel exponent_1e21 (JNumber (Fin (10 ^ 21))) = 1"
    by (simp add: channel_integer channel_string exponent_1e21_def li clamp_def)
  show ?thesis
    using r g b
    by (simp add: colorCommand_def COMMANDS_keys COMMANDS_ELK_BLEDOM_def validate_channel
        spec_clamp_def clamp_def)
qed

lemma and_255_mod: "(x::int) AND 255 = x mod 256"
proof -
  have "(255::int) = mask 8" by (simp add: mask_eq_exp_minus_1)
  then have "x AND 255 = take_bit 8 x" by (simp only: take_bit_eq_mask)
  then show ?thesis by (simp add: take_bit_eq_mod)
qed

lemma wrap_mod_256: "((m::int) - 4294967296) mod 256 = m mod 256"
proof -
  have "m - 4294967296 = m + 256 * (- 16777216)" by simp
  then show ?thesis by (simp only: mod_mult_self2)
qed

lemma mod_mod_256: "((n::int) mod 4294967296) mod 256 = n mod 256"
  by (rule mod_mod_cancel) simp

lemma ToInt32_mod_256: "ToInt32 (Fin n) mod 256 = n mod 256"
  by (simp add: ToInt32_def Let_def wrap_mod_256 mod_mod_256)

lemma js_checksum: "js_bitand (Fin n) (Fin 0xFF) = Fin (n mod 256)"
proof -
  have "ToInt32 (Fin 0xFF) = 255" by (simp add: ToInt32_def)
  then show ?thesis
    by (simp add: js_bitand_def and_255_mod ToInt32_mod_256)
qed

text \<open>
  Claim C5. For channel values in 0..255 the GENERIC colour frame has, before the end byte,
  the byte \<open>(r + g + b) mod 256\<close>. The ELK_BLEDOM colour frame has none: it is nine bytes,
  and every byte but the three channels is the same for all colours.
\<close>

theorem C5_checksum:
  assumes "0 \<le> r \<and> r \<le> 255" and "0 \<le> g \<and> g \<le> 255" and "0 \<le> b \<and> b \<le> 255"
  shows "COLOR COMMANDS_GENERIC (Fin r) (Fin g) (Fin b) =
           [Fin 0x7e, Fin 0x00, Fin 0x05, Fin 0x03, Fin r, Fin g, Fin b, Fin 0x00,
            Fin ((r + g + b) mod 256), Fin 0xef] \<and>
         Uint8Array (COLOR COMMANDS_GENERIC (Fin r) (Fin g) (Fin b)) ! 8 = (r + g + b) mod 256 \<and>
         COLOR COMMANDS_ELK_BLEDOM (Fin r) (Fin g) (Fin b) =
           [Fin 0x7e, Fin 0x07, Fin 0x05, Fin 0x03, Fin r, Fin g, Fin b, Fin 0x00, Fin 0xef] \<and>
         (\<forall>i < 9. i \<notin> {4, 5, 6} \<longrightarrow>
            COLOR COMMANDS_ELK_BLEDOM (Fin r) (Fin g) (Fin b) ! i =
            COLOR COMMANDS_ELK_BLEDOM (Fin 0) (Fin 0) (Fin 0) ! i)"
proof (intro conjI)
  show g: "COLOR COMMANDS_GENERIC (Fin r) (Fin g) (Fin b) =
           [Fin 0x7e, Fin 0x00, Fin 0x05, Fin 0x03, Fin r, Fin g, Fin b, Fin 0x00,
            Fin ((r + g + b) mod 256), Fin 0xef]"
    by (simp add: COMMANDS_GENERIC_def Let_def js_checksum)
  show "Uint8Array (COLOR COMMANDS_GENERIC (Fin r) (Fin g) (Fin b)) ! 8 = (r + g + b) mod 256"
    by (simp add: g Uint8Array_def ToUint8_def)
  show e: "COLOR COMMANDS_ELK_BLEDOM (Fin r) (Fin g) (Fin b) =
           [Fin 0x7e, Fin 0x07, Fin 0x05, Fin 0x03, Fin r, Fin g, Fin b, Fin 0x00, Fin 0xef]"
    by (simp add: COMMANDS_ELK_BLEDOM_def)
  show "\<forall>i < 9. i \<notin> {4, 5, 6} \<longrightarrow>
            COLOR COMMANDS_ELK_BLEDOM (Fin r) (Fin g) (Fin b) ! i =
            COLOR COMMANDS_ELK_BLEDOM (Fin 0) (Fin 0) (Fin 0) ! i"
  proof (intro allI impI)
    fix i :: nat
    assume "i < 9" "i \<notin> {4, 5, 6}"
    then consider "i = 0" | "i = 1" | "i = 2" | "i = 3" | "i = 7" | "i = 8"
      by force
    then show "COLOR COMMANDS_ELK_BLEDOM (Fin r) (Fin g) (Fin b) ! i =
            COLOR COMMANDS_ELK_BLEDOM (Fin 0) (Fin 0) (Fin 0) ! i"
      by cases (simp_all add: e COMMANDS_ELK_BLEDOM_def)
  qed
qed

theorem C5_witness:
  "(0::int) \<le> 200 \<and> (200::int) \<le> 255 \<and> (0::int) \<le> 100 \<and> (100::int) \<le> 255 \<and>
   COLOR COMMANDS_GENERIC (Fin 200) (Fin 100) (Fin 100) =
     [Fin 0x7e, Fin 0x00, Fin 0x05, Fin 0x03, Fin 200, Fin 100, Fin 100, Fin 0x00, Fin 144, Fin 0xef] \<and>
   COLOR COMMANDS_ELK_BLEDOM (Fin 200) (Fin 100) (Fin 100) =
     [Fin 0x7e, Fin 0x07, Fin 0x05, Fin 0x03, Fin 200, Fin 100, Fin 100, Fin 0x00, Fin 0xef]"
  using C5_checksum [of 200 100 100] by simp

subsection \<open>Frame format\<close>

lemma ToUint8_is_byte [simp]: "is_byte (ToUint8 x)"
  by (cases x) (simp_all add: ToUint8_def is_byte_def)

lemma ToUint8_Fin_byte [simp]:
  "ToUint8 (Fin 0x7e) = 0x7e" "ToUint8 (Fin 0xef) = 0xef"
  by (simp_all add: ToUint8_def)

lemma well_framed_9:
  "well_framed (Uint8Array [Fin 0x7e, a, b, c, d, e, f, g, Fin 0xef])"
  by (simp add: well_framed_def Uint8Array_def) (simp add: is_byte_def)

lemma well_framed_10:
  "well_framed (Uint8Array [Fin 0x7e, a, b, c, d, e, f, g, h, Fin 0xef])"
  by (simp add: well_framed_def Uint8Array_def) (simp add: is_byte_def)

lemma well_framed_8:
  "well_framed (Uint8Array [Fin 0x7e, a, b, c, d, e, f, Fin 0xef])"
  by (simp add: well_framed_def Uint8Array_def) (simp add: is_byte_def)

lemma elk_table_frames:
  "list_all (\<lambda>f. well_framed (Uint8Array f) \<and> length f = 9)
     (table_frames COMMANDS_ELK_BLEDOM r g b level effect)"
  by (simp add: table_frames_def COMMANDS_ELK_BLEDOM_def well_framed_9)

lemma generic_table_frames:
  "list_all (\<lambda>f. well_framed (Uint8Array f) \<and> (length f = 9 \<or> length f = 10))
     (table_frames COMMANDS_GENERIC r g b level effect)"
  by (simp add: table_frames_def COMMANDS_GENERIC_def well_framed_9 well_framed_10 Let_def)

lemma protocolConfig_keys:
  "protocolConfig ''ELK_BLEDOM'' = Some (PROTOCOLS ! 0)"
  "protocolConfig ''GENERIC'' = Some (PROTOCOLS ! 1)"
  by (simp_all add: protocolConfig_def PROTOCOLS_def)

lemma elk_config_frames:
  "list_all (\<lambda>f. well_framed (Uint8Array f) \<and> length f = 8)
     (config_frames (p_commands (PROTOCOLS ! 0)) r g b val)"
  by (simp add: config_frames_def PROTOCOLS_def well_framed_8)

lemma generic_config_frames:
  "map length (config_frames (p_commands (PROTOCOLS ! 1)) r g b val) = [2, 2, 4, 2]"
  "map (\<lambda>f. hd (Uint8Array f)) (config_frames (p_commands (PROTOCOLS ! 1)) r g b val) = [1, 1, 2, 3]"
  by (simp_all add: config_frames_def PROTOCOLS_def Uint8Array_def ToUint8_def)

text \<open>
  Claim C6, as the code has it. Every frame of \<^verbatim>\<open>BLEController.COMMANDS\<close>, for both protocols,
  every operation and every argument, is 9 or 10 bytes from \<open>0x7E\<close> to \<open>0xEF\<close>; so are the
  8-byte frames of the ELK_BLEDOM entry of \<^verbatim>\<open>DEVICE_CONFIG.PROTOCOLS\<close>. The frames of its
  GENERIC entry are 2, 2, 4 and 2 bytes long and start with 1, 1, 2 and 3.
\<close>

theorem C6_frames:
  "COMMANDS ''ELK_BLEDOM'' = Some COMMANDS_ELK_BLEDOM \<and>
   COMMANDS ''GENERIC'' = Some COMMANDS_GENERIC \<and>
   list_all (\<lambda>f. well_framed (Uint8Array f) \<and> length f = 9)
     (table_frames COMMANDS_ELK_BLEDOM r g b level effect) \<and>
   list_all (\<lambda>f. well_framed (Uint8Array f) \<and> (length f = 9 \<or> length f = 10))
     (table_frames COMMANDS_GENERIC r g b level effect) \<and>
   protocolConfig ''ELK_BLEDOM'' = Some (PROTOCOLS ! 0) \<and>
   list_all (\<lambda>f. well_framed (Uint8Array f) \<and> length f = 8)
     (config_frames (p_commands (PROTOCOLS ! 0)) r g b val) \<and>
   protocolConfig ''GENERIC'' = Some (PROTOCOLS ! 1) \<and>
   map length (config_frames (p_commands (PROTOCOLS ! 1)) r g b val) = [2, 2, 4, 2] \<and>
   map (\<lambda>f. hd (Uint8Array f)) (config_frames (p_commands (PROTOCOLS ! 1)) r g b val) = [1, 1, 2, 3]"
  by (simp only: elk_table_frames generic_table_frames elk_config_frames generic_config_frames
      protocolConfig_keys simp_thms) (simp add: COMMANDS_def)

text \<open>
  The claim as it is worded, for every outbound frame of both protocols, fails on the
  power-on frame of the GENERIC entry of \<^verbatim>\<open>DEVICE_CONFIG.PROTOCOLS\<close>: two bytes, no start byte.
\<close>

theorem C6_counterexample:
  "protocolConfig ''GENERIC'' = Some (PROTOCOLS ! 1) \<and>
   Uint8Array (cmd_on (p_commands (PROTOCOLS ! 1))) = [0x01, 0xFF] \<and>
   \<not> well_framed (Uint8Array (cmd_on (p_commands (PROTOCOLS ! 1))))"
  by (simp add: protocolConfig_keys) (simp add: PROTOCOLS_def Uint8Array_def ToUint8_def well_framed_def)

subsection \<open>Retry budget and the connection guard\<close>

lemma retry_steps_append [simp]: "retry_steps (xs @ ys) = retry_steps xs @ retry_steps ys"
  by (induction xs rule: retry_steps.induct) simp_all

lemma reconnect_device [simp]: "device (snd (reconnect p k s)) = device s"
  by (simp add: reconnect_def split: option.split reconnect_outcome.split)

lemma reconnect_characteristic:
  "characteristic s = Some h \<Longrightarrow> \<exists>h'. characteristic (snd (reconnect p k s)) = Some h'"
  by (simp add: reconnect_def split: option.split reconnect_outcome.split)

text \<open>The session as the liveness check leaves it.\<close>

lemma attemptSend_unfold:
  assumes "device s = Some d"
  shows "attemptSend p c k s =
     (let flood = (if dateNow p k - lastCommandTime s < commandDelay s
                   then [FloodWait (commandDelay s - (dateNow p k - lastCommandTime s))] else []);
          s1 = (if \<not> gattConnected p k then snd (reconnect p k s) else s);
          rc = (if \<not> gattConnected p k then [Reconnect] else [])
      in case characteristic s1 of
           None \<Rightarrow> (False, s1, flood @ rc)
         | Some ch \<Rightarrow>
             (case writeOutcome p k of
                WriteResolves \<Rightarrow>
                  (True, s1\<lparr>lastCommandTime := dateNowAfterWrite p k\<rparr>,
                   flood @ rc @ [WriteValue ch (Uint8Array c), Settle 50])
              | WriteRejects \<Rightarrow> (False, s1, flood @ rc @ [WriteValue ch (Uint8Array c)])
              | WriteHangs \<Rightarrow> (False, s1, flood @ rc @ [WriteValue ch (Uint8Array c), Timeout 5000])))"
  using assms unfolding attemptSend_def Let_def by simp

lemma retry_steps_flood [simp]:
  "retry_steps (if b then [FloodWait w] else []) = []"
  "retry_steps (if b then [Reconnect] else []) = []"
  by simp_all

lemma attemptSend_rejected:
  assumes w: "writeOutcome p k \<noteq> WriteResolves"
    and d: "device s \<noteq> None" and ch: "characteristic s \<noteq> None"
  shows "\<not> fst (attemptSend p c k s)"
    and "device (fst (snd (attemptSend p c k s))) = device s"
    and "characteristic (fst (snd (attemptSend p c k s))) \<noteq> None"
    and "retry_steps (snd (snd (attemptSend p c k s))) = [Write]"
proof -
  from d obtain dv where dv: "device s = Some dv" by auto
  define s1 where "s1 = (if \<not> gattConnected p k then snd (reconnect p k s) else s)"
  have s1d: "device s1 = device s" by (simp add: s1_def)
  from ch obtain h0 where h0: "characteristic s = Some h0" by auto
  have "\<exists>h. characteristic s1 = Some h"
    using h0 reconnect_characteristic [OF h0, of p k] by (simp add: s1_def)
  then obtain h where h: "characteristic s1 = Some h" by auto
  note u = attemptSend_unfold [OF dv, of p c k, unfolded Let_def, folded s1_def, unfolded h option.case]
  show "\<not> fst (attemptSend p c k s)"
    using w unfolding u by (cases "writeOutcome p k") simp_all
  show "device (fst (snd (attemptSend p c k s))) = device s"
    using w s1d unfolding u by (cases "writeOutcome p k") simp_all
  show "characteristic (fst (snd (attemptSend p c k s))) \<noteq> None"
    using w h unfolding u by (cases "writeOutcome p k") simp_all
  show "retry_steps (snd (snd (attemptSend p c k s))) = [Write]"
    using w unfolding u by (cases "writeOutcome p k") simp_all
qed


lemma attemptSend_at_most_one_write:
  "write_count (snd (snd (attemptSend p c k s))) \<le> 1"
proof (cases "device s")
  case None
  then show ?thesis
    unfolding attemptSend_def Let_def by (simp add: write_count_def)
next
  case (Some dv)
  show ?thesis
    unfolding attemptSend_unfold [OF Some] Let_def
    by (cases "characteristic (if \<not> gattConnected p k then snd (reconnect p k s) else s)";
        cases "writeOutcome p k")
       (simp_all add: write_count_def)
qed

lemma sendLoop_write_budget:
  "write_count (snd (snd (sendLoop p c retries attempt s))) \<le> retries + 1 - attempt"
proof (induction p c retries attempt s rule: sendLoop.induct)
  case (1 p c retries attempt s)
  let ?r = "attemptSend p c attempt s"
  have one: "write_count (snd (snd ?r)) \<le> 1" by (rule attemptSend_at_most_one_write)
  consider (over) "\<not> attempt \<le> retries" | (ok) "attempt \<le> retries" "fst ?r"
    | (final) "attempt \<le> retries" "\<not> fst ?r" "attempt = retries"
    | (again) "attempt \<le> retries" "\<not> fst ?r" "attempt \<noteq> retries"
    by blast
  then show ?case
  proof cases
    case over
    then show ?thesis by (subst sendLoop.simps) (simp add: write_count_def)
  next
    case ok
    then have "sendLoop p c retries attempt s = ?r"
      by (subst sendLoop.simps) (simp add: Let_def)
    with one ok show ?thesis by simp
  next
    case final
    then have "snd (snd (sendLoop p c retries attempt s)) =
        snd (snd ?r) @ (if showGlobalNotification p then [Notification retries] else [])"
      by (subst sendLoop.simps) (simp add: Let_def)
    with one final show ?thesis by (simp add: write_count_def)
  next
    case again
    let ?n = "sendLoop p c retries (attempt + 1) (fst (snd ?r))"
    from "1.IH" [OF again(1) refl again(2,3)]
    have ih: "write_count (snd (snd ?n)) \<le> retries + 1 - (attempt + 1)" .
    from again have "snd (snd (sendLoop p c retries attempt s)) =
        snd (snd ?r) @ [Backoff (100 * int attempt)] @ snd (snd ?n)"
      by (subst sendLoop.simps) (simp add: Let_def)
    with one ih again show ?thesis by (simp add: write_count_def)
  qed
qed


text \<open>Whatever the platform does, a call makes no more writes than its budget.\<close>

lemma sendCommand_write_budget:
  "write_count (snd (snd (sendCommand p c retries s))) \<le> retries"
  using sendLoop_write_budget [of p c retries 1 s]
  by (simp add: sendCommand_def write_count_def)

lemma sendLoop_retry:
  assumes "attempt < retries" and "n = attempt + 1" and "\<not> fst (attemptSend p c attempt s)"
  shows "fst (sendLoop p c retries attempt s) =
           fst (sendLoop p c retries n (fst (snd (attemptSend p c attempt s))))"
    and "snd (snd (sendLoop p c retries attempt s)) =
           snd (snd (attemptSend p c attempt s)) @ [Backoff (100 * int attempt)] @
           snd (snd (sendLoop p c retries n (fst (snd (attemptSend p c attempt s)))))"
    and "fst (snd (sendLoop p c retries attempt s)) =
           fst (snd (sendLoop p c retries n (fst (snd (attemptSend p c attempt s)))))"
proof -
  have u: "sendLoop p c retries attempt s =
     (fst (sendLoop p c retries n (fst (snd (attemptSend p c attempt s)))),
      fst (snd (sendLoop p c retries n (fst (snd (attemptSend p c attempt s))))),
      snd (snd (attemptSend p c attempt s)) @ [Backoff (100 * int attempt)] @
      snd (snd (sendLoop p c retries n (fst (snd (attemptSend p c attempt s))))))"
    using assms by (subst sendLoop.simps) (simp add: Let_def)
  show "fst (sendLoop p c retries attempt s) =
           fst (sendLoop p c retries n (fst (snd (attemptSend p c attempt s))))"
    by (subst u) simp
  show "snd (snd (sendLoop p c retries attempt s)) =
           snd (snd (attemptSend p c attempt s)) @ [Backoff (100 * int attempt)] @
           snd (snd (sendLoop p c retries n (fst (snd (attemptSend p c attempt s)))))"
    by (subst u) simp
  show "fst (snd (sendLoop p c retries attempt s)) =
           fst (snd (sendLoop p c retries n (fst (snd (attemptSend p c attempt s)))))"
    by (subst u) simp
qed

lemma sendLoop_exhausted:
  assumes "\<not> fst (attemptSend p c retries s)"
  shows "fst (sendLoop p c retries retries s) = False"
    and "snd (snd (sendLoop p c retries retries s)) =
           snd (snd (attemptSend p c retries s)) @
           (if showGlobalNotification p then [Notification retries] else [])"
    and "fst (snd (sendLoop p c retries retries s)) = fst (snd (attemptSend p c retries s))"
proof -
  have u: "sendLoop p c retries retries s =
     (False, fst (snd (attemptSend p c retries s)),
      snd (snd (attemptSend p c retries s)) @
      (if showGlobalNotification p then [Notification retries] else []))"
    using assms by (subst sendLoop.simps) (simp add: Let_def)
  show "fst (sendLoop p c retries retries s) = False"
    and "snd (snd (sendLoop p c retries retries s)) =
           snd (snd (attemptSend p c retries s)) @
           (if showGlobalNotification p then [Notification retries] else [])"
    and "fst (snd (sendLoop p c retries retries s)) = fst (snd (attemptSend p c retries s))"
    by (simp_all add: u)
qed

lemma sendLoop_all_rejected:
  assumes w: "\<forall>k. writeOutcome p k \<noteq> WriteResolves"
    and d: "device s \<noteq> None" and ch: "characteristic s \<noteq> None"
  shows "\<not> fst (sendLoop p c 3 1 s)"
    and "retry_steps (snd (snd (sendLoop p c 3 1 s))) = [Write, Wait 100, Write, Wait 200, Write]"
proof -
  let ?a1 = "attemptSend p c 1 s"
  let ?s1 = "fst (snd ?a1)"
  let ?a2 = "attemptSend p c 2 ?s1"
  let ?s2 = "fst (snd ?a2)"
  let ?a3 = "attemptSend p c 3 ?s2"
  from w have w1: "writeOutcome p 1 \<noteq> WriteResolves" and w2: "writeOutcome p 2 \<noteq> WriteResolves"
    and w3: "writeOutcome p 3 \<noteq> WriteResolves" by simp_all
  note a1 = attemptSend_rejected [OF w1 d ch, of c]
  have d1: "device ?s1 \<noteq> None" using a1(2) d by simp
  note a2 = attemptSend_rejected [OF w2 d1 a1(3), of c]
  have d2: "device ?s2 \<noteq> None" using a2(2) d1 by simp
  note a3 = attemptSend_rejected [OF w3 d2 a2(3), of c]
  note l3 = sendLoop_exhausted [OF a3(1)]
  have n: "(2::nat) < 3" "(3::nat) = 2 + 1" "(1::nat) < 3" "(2::nat) = 1 + 1" by simp_all
  note l2 = sendLoop_retry [OF n(1,2) a2(1)]
  note l1 = sendLoop_retry [OF n(3,4) a1(1)]
  show "\<not> fst (sendLoop p c 3 1 s)"
    by (simp only: l1(1) l2(1) l3(1)) simp
  show "retry_steps (snd (snd (sendLoop p c 3 1 s))) = [Write, Wait 100, Write, Wait 200, Write]"
    by (simp only: l1(2) l2(2) l3(2) retry_steps_append a1(4) a2(4) a3(4))
       (simp del: One_nat_def)
qed

text \<open>
  Claim C1. On a connected session (connected flag set, characteristic resolved, device
  present) and a platform on which no write ever resolves, \<^verbatim>\<open>sendCommand(frame, 3)\<close>
  returns \<^verbatim>\<open>false\<close> after exactly three writes, with a wait of 100 ms after the first and of
  200 ms after the second, and none after the third.
\<close>

theorem C1_retry_budget:
  assumes "isConnected s" and "characteristic s \<noteq> None" and "device s \<noteq> None"
    and "\<forall>k. writeOutcome p k \<noteq> WriteResolves"
  shows "fst (sendCommand p frame 3 s) = False \<and>
         write_count (snd (snd (sendCommand p frame 3 s))) = 3 \<and>
         retry_steps (snd (snd (sendCommand p frame 3 s))) = [Write, Wait 100, Write, Wait 200, Write]"
  using assms(1,2) sendLoop_all_rejected [OF assms(4,3,2), of frame]
  by (simp add: sendCommand_def write_count_def)

theorem C1_witness:
  "isConnected connected_session \<and> characteristic connected_session \<noteq> None \<and>
   device connected_session \<noteq> None \<and>
   (\<forall>k. writeOutcome failing_platform k \<noteq> WriteResolves) \<and>
   fst (sendCommand failing_platform red_command 3 connected_session) = False \<and>
   write_count (snd (snd (sendCommand failing_platform red_command 3 connected_session))) = 3 \<and>
   retry_steps (snd (snd (sendCommand failing_platform red_command 3 connected_session))) =
     [Write, Wait 100, Write, Wait 200, Write]"
  using C1_retry_budget [of connected_session failing_platform red_command]
  by (simp add: connected_session_def failing_platform_def)

text \<open>
  Claim C3. When the session is not connected or has no characteristic, \<^verbatim>\<open>sendCommand\<close>
  returns \<^verbatim>\<open>false\<close> as a value, for every frame and every number of retries; it makes no
  platform call and waits for no timer, and the session is as it was.
\<close>

theorem C3_not_connected:
  assumes "\<not> isConnected s \<or> characteristic s = None"
  shows "sendCommand p frame retries s = (False, s, [])"
  using assms by (auto simp: sendCommand_def)

theorem C3_witness:
  "isConnected new_BLEController = False \<and> characteristic new_BLEController = None \<and>
   sendCommand failing_platform red_command 3 new_BLEController = (False, new_BLEController, [])"
  using C3_not_connected [of new_BLEController failing_platform red_command 3]
  by (simp add: new_BLEController_def)

text \<open>
  An attempt that finds the link lost and fails to reconnect: the write goes to the
  characteristic the session had, and the attempt succeeds exactly when that write resolves.
\<close>

lemma attemptSend_after_failed_reconnect:
  assumes d: "device s = Some d" and h: "characteristic s = Some h"
    and lost: "\<not> gattConnected p k" and failed: "fst (reconnect p k s) \<noteq> Some True"
  shows "\<exists>flood rest. snd (snd (attemptSend p c k s)) =
           flood @ [Reconnect, WriteValue h (Uint8Array c)] @ rest"
    and "fst (attemptSend p c k s) = (writeOutcome p k = WriteResolves)"
    and "\<not> isConnected (fst (snd (attemptSend p c k s)))"
proof -
  let ?s1 = "snd (reconnect p k s)"
  have s1: "characteristic ?s1 = Some h" "\<not> isConnected ?s1"
    using d h failed by (auto simp: reconnect_def split: reconnect_outcome.splits)
  note u = attemptSend_unfold [OF d, of p c k, unfolded Let_def]
  show "\<exists>flood rest. snd (snd (attemptSend p c k s)) =
           flood @ [Reconnect, WriteValue h (Uint8Array c)] @ rest"
  proof (cases "writeOutcome p k")
    case WriteResolves
    then show ?thesis unfolding u using lost s1
      by (intro exI [of _ "if dateNow p k - lastCommandTime s < commandDelay s
            then [FloodWait (commandDelay s - (dateNow p k - lastCommandTime s))] else []"]
          exI [of _ "[Settle 50]"]) simp
  next
    case WriteRejects
    then show ?thesis unfolding u using lost s1
      by (intro exI [of _ "if dateNow p k - lastCommandTime s < commandDelay s
            then [FloodWait (commandDelay s - (dateNow p k - lastCommandTime s))] else []"]
          exI [of _ "[]"]) simp
  next
    case WriteHangs
    then show ?thesis unfolding u using lost s1
      by (intro exI [of _ "if dateNow p k - lastCommandTime s < commandDelay s
            then [FloodWait (commandDelay s - (dateNow p k - lastCommandTime s))] else []"]
          exI [of _ "[Timeout 5000]"]) simp
  qed
  show "fst (attemptSend p c k s) = (writeOutcome p k = WriteResolves)"
    unfolding u using lost s1 by (cases "writeOutcome p k") simp_all
  show "\<not> isConnected (fst (snd (attemptSend p c k s)))"
    unfolding u using lost s1 by (cases "writeOutcome p k") simp_all
qed

lemma lost_link_fields:
  "dateNow lost_link_platform k = 1000 * int k"
  "gattConnected lost_link_platform k = False"
  "reconnectOutcome lost_link_platform k = GattConnectFails"
  "writeOutcome lost_link_platform k = WriteRejects"
  "showGlobalNotification lost_link_platform"
  by (simp_all add: lost_link_platform_def failing_platform_def)

lemma red_bytes: "Uint8Array red_command = [0x7e, 0x07, 0x05, 0x03, 255, 0, 0, 0x00, 0xef]"
  by (simp add: red_command_def COMMANDS_ELK_BLEDOM_def Uint8Array_def ToUint8_def)

lemma connected_fields:
  "device connected_session = Some 1" "characteristic connected_session = Some 4"
  "lastCommandTime connected_session = 0" "commandDelay connected_session = 50"
  "isConnected connected_session"
  by (simp_all add: connected_session_def)

lemma attempt_on_lost_link:
  assumes "device s = Some d" "characteristic s = Some h" "0 < k"
    "lastCommandTime s = 0" "commandDelay s = 50"
  shows "attemptSend lost_link_platform red_command k s =
       (False, s\<lparr>isConnected := False\<rparr>,
        [Reconnect, WriteValue h [0x7e, 0x07, 0x05, 0x03, 255, 0, 0, 0x00, 0xef]])"
proof -
  have nf: "\<not> 1000 * int k < 50" using assms(3) by simp
  show ?thesis
    unfolding attemptSend_def Let_def lost_link_fields red_bytes reconnect_def
    using assms nf by simp
qed


text \<open>
  Claim C2, at a session whose link is lost and whose reconnection fails in every attempt:
  \<^verbatim>\<open>reconnect()\<close> is called before each write, as the claim says, but its result is dropped
  and the write still goes to the characteristic resolved before the link was lost.
\<close>

theorem C2_stale_write:
  "sendCommand lost_link_platform red_command 3 connected_session =
     (False, connected_session\<lparr>isConnected := False\<rparr>,
      [Reconnect, WriteValue 4 [0x7e, 0x07, 0x05, 0x03, 255, 0, 0, 0x00, 0xef], Backoff 100,
       Reconnect, WriteValue 4 [0x7e, 0x07, 0x05, 0x03, 255, 0, 0, 0x00, 0xef], Backoff 200,
       Reconnect, WriteValue 4 [0x7e, 0x07, 0x05, 0x03, 255, 0, 0, 0x00, 0xef], Notification 3])"
proof -
  let ?p = lost_link_platform and ?c = red_command
  let ?s = "connected_session\<lparr>isConnected := False\<rparr>"
  let ?w = "WriteValue 4 [0x7e, 0x07, 0x05, 0x03, 255, 0, 0, 0x00, 0xef]"
  have a1: "attemptSend ?p ?c 1 connected_session = (False, ?s, [Reconnect, ?w])"
    by (rule attempt_on_lost_link) (simp_all add: connected_fields)
  have a2: "attemptSend ?p ?c 2 ?s = (False, ?s\<lparr>isConnected := False\<rparr>, [Reconnect, ?w])"
    by (rule attempt_on_lost_link) (simp_all add: connected_fields)
  have a3: "attemptSend ?p ?c 3 ?s = (False, ?s\<lparr>isConnected := False\<rparr>, [Reconnect, ?w])"
    by (rule attempt_on_lost_link) (simp_all add: connected_fields)
  have ss: "?s\<lparr>isConnected := False\<rparr> = ?s" by simp
  have nf: "\<not> fst (attemptSend ?p ?c 1 connected_session)" "\<not> fst (attemptSend ?p ?c 2 ?s)"
    "\<not> fst (attemptSend ?p ?c 3 ?s)"
    by (simp_all only: a1 a2 a3 fst_conv not_False_eq_True)
  have n: "(2::nat) < 3" "(3::nat) = 2 + 1" "(1::nat) < 3" "(2::nat) = 1 + 1" by simp_all
  have l3: "sendLoop ?p ?c 3 3 ?s = (False, ?s, [Reconnect, ?w, Notification 3])"
    by (simp only: prod_eq_iff sendLoop_exhausted [OF nf(3)] a3 ss fst_conv snd_conv
        lost_link_fields if_True append.simps simp_thms)
  have l2: "sendLoop ?p ?c 3 2 ?s =
      (False, ?s, [Reconnect, ?w, Backoff 200, Reconnect, ?w, Notification 3])"
    by (simp only: prod_eq_iff sendLoop_retry [OF n(1,2) nf(2)] a2 ss l3 fst_conv snd_conv
        append.simps simp_thms)
       (simp del: One_nat_def)
  have l1: "sendLoop ?p ?c 3 1 connected_session =
      (False, ?s, [Reconnect, ?w, Backoff 100, Reconnect, ?w, Backoff 200, Reconnect, ?w,
                   Notification 3])"
    by (simp only: prod_eq_iff sendLoop_retry [OF n(3,4) nf(1)] a1 l2 fst_conv snd_conv
        append.simps simp_thms)
       (simp del: One_nat_def)
  show ?thesis
    unfolding sendCommand_def
    by (simp only: connected_fields l1 simp_thms if_False option.distinct)
qed

theorem C2_witness:
  "write_count (snd (snd (sendCommand lost_link_platform red_command 3 connected_session))) = 3 \<and>
   isConnected (fst (snd (sendCommand lost_link_platform red_command 3 connected_session))) = False \<and>
   characteristic (fst (snd (sendCommand lost_link_platform red_command 3 connected_session))) =
     characteristic connected_session"
  using C2_stale_write by (simp add: write_count_def)

subsection \<open>Disconnecting twice\<close>

text \<open>
  On a session that is already disconnected \<^verbatim>\<open>disconnect()\<close> changes nothing, calls nothing
  and does not throw. A call that returns leaves the session disconnected, so that a further
  call returns the same state. A call throws exactly when the session holds a device
  without a GATT server.
\<close>

lemma disconnect_noop:
  assumes "disconnected s"
  shows "disconnect gatt s = Inr (s, [])"
  using assms by (cases s) (simp add: disconnect_def disconnected_def)

lemma disconnect_throws:
  "(disconnect gatt s = Inl e) = (device s \<noteq> None \<and> gatt = None \<and> e = TypeError)"
  by (auto simp: disconnect_def Let_def split: option.splits)

lemma disconnect_returns:
  assumes "disconnect gatt s = Inr (s1, evs)"
  shows "disconnected s1 \<and> disconnect gatt' s1 = Inr (s1, [])"
proof -
  from assms have "disconnected s1"
    by (auto simp: disconnect_def disconnected_def Let_def split: option.splits)
  then show ?thesis by (simp add: disconnect_noop)
qed

lemma disconnect_with_gatt:
  "\<exists>s1 evs. disconnect (Some linkOpen) s = Inr (s1, evs)"
  by (simp add: disconnect_def Let_def split: option.splits)


end
